theory Spec2Isabelle
  imports Main "HOL-Library.Option_ord" "HOL-Library.Product_Lexorder"
begin

section \<open>Robohub: robots, parts and maintenance logs\<close>

text \<open>
  The service of \<^verbatim>\<open>main.py\<close> keeps three tables in a relational database and offers
  one request handler per endpoint. Every handler receives a database session of its own
  (\<^verbatim>\<open>SessionDep\<close>), reads and writes through it, and either returns a value or raises.
  The embedding follows that shape: table rows are records, the database is a record of
  three row lists and two id sequences, a session is a record threaded through the handler,
  and a handler returns \<open>(exc + body) \<times> session\<close>, with \<open>Inl\<close> for a raised exception.
\<close>

subsection \<open>Table rows (lines 15 to 41)\<close>

text \<open>
  A date is the day's ordinal number. A column that can hold \<^verbatim>\<open>None\<close> in a Python object
  of the class is an \<open>option\<close>: the primary keys before the row is flushed, and every
  field the transfer shapes can hand over as \<^verbatim>\<open>None\<close>.
\<close>

type_synonym date = int

record robots =
  robots_id :: "int option"
  robots_name :: "string option"
  robots_type :: "string option"
  robots_created_at :: date

record parts =
  parts_robot_id :: int
  parts_id :: "int option"
  parts_name :: "string option"
  parts_quantity :: "int option"
  parts_last_checked :: "date option"

record maintenance_logs =
  logs_id :: "int option"
  logs_robot_id :: int
  logs_parts_id :: "int option"
  logs_description :: string
  logs_log_date :: date
  logs_done_by :: string

subsection \<open>Transfer shapes (lines 43 to 85)\<close>

text \<open>
  A field of a request body is either absent from the request (\<open>Unset\<close>) or given, and a
  given optional field may be \<^verbatim>\<open>null\<close>. \<^verbatim>\<open>model_dump()\<close> reads an absent field as its
  default \<^verbatim>\<open>None\<close>; \<^verbatim>\<open>model_dump(exclude_unset=True)\<close> leaves it out.
\<close>

datatype 'a field = Unset | Given 'a

record create_update_robots =
  cur_name :: "string option field"
  cur_type :: "string option field"

record create_update_parts =
  cup_name :: "string option field"
  cup_quantity :: "int option field"
  cup_last_checked :: "date option field"

record create_maintenance_log =
  cml_parts_id :: "int option field"
  cml_description :: string
  cml_done_by :: string

definition dump :: "'a option field \<Rightarrow> 'a option" where
  "dump f = (case f of Unset \<Rightarrow> None | Given v \<Rightarrow> v)"

datatype robots_update = Set_name "string option" | Set_type "string option"

datatype parts_update =
  Set_part_name "string option" | Set_quantity "int option" | Set_last_checked "date option"

definition exclude_unset_robots :: "create_update_robots \<Rightarrow> robots_update list" where
  "exclude_unset_robots body =
     (case cur_name body of Unset \<Rightarrow> [] | Given v \<Rightarrow> [Set_name v]) @
     (case cur_type body of Unset \<Rightarrow> [] | Given v \<Rightarrow> [Set_type v])"

definition exclude_unset_parts :: "create_update_parts \<Rightarrow> parts_update list" where
  "exclude_unset_parts body =
     (case cup_name body of Unset \<Rightarrow> [] | Given v \<Rightarrow> [Set_part_name v]) @
     (case cup_quantity body of Unset \<Rightarrow> [] | Given v \<Rightarrow> [Set_quantity v]) @
     (case cup_last_checked body of Unset \<Rightarrow> [] | Given v \<Rightarrow> [Set_last_checked v])"

fun setattr_robots :: "robots_update \<Rightarrow> robots \<Rightarrow> robots" where
  "setattr_robots (Set_name v) data = data\<lparr>robots_name := v\<rparr>"
| "setattr_robots (Set_type v) data = data\<lparr>robots_type := v\<rparr>"

fun setattr_parts :: "parts_update \<Rightarrow> parts \<Rightarrow> parts" where
  "setattr_parts (Set_part_name v) data = data\<lparr>parts_name := v\<rparr>"
| "setattr_parts (Set_quantity v) data = data\<lparr>parts_quantity := v\<rparr>"
| "setattr_parts (Set_last_checked v) data = data\<lparr>parts_last_checked := v\<rparr>"

subsection \<open>The database\<close>

text \<open>
  The three tables, and the sequences behind the two server-assigned keys
  (\<^verbatim>\<open>robots.id\<close> and \<^verbatim>\<open>maintenance_logs.id\<close> are single integer primary keys).
\<close>

record store =
  robots_table :: "robots list"
  parts_table :: "parts list"
  maintenance_logs_table :: "maintenance_logs list"
  robots_id_seq :: int
  maintenance_logs_id_seq :: int

text \<open>
  The table definitions inside the database are not part of the repository (nothing in
  \<^verbatim>\<open>main.py\<close> creates the tables). What the classes do not write down is a parameter:
  row-level checks the database may apply on top of the declared constraints (such as
  NOT NULL), and the value, if any, the database puts into \<^verbatim>\<open>parts.id\<close> when a part is
  inserted without one (the class declares no generator for this half of the composite key,
  and the request body cannot carry it).
\<close>

record ddl =
  robots_check :: "robots \<Rightarrow> bool"
  parts_check :: "parts \<Rightarrow> bool"
  maintenance_logs_check :: "maintenance_logs \<Rightarrow> bool"
  parts_id_default :: "store \<Rightarrow> int \<Rightarrow> int option"

text \<open>
  A column of type \<^verbatim>\<open>VARCHAR(n)\<close>: the value the database stores for a string assigned
  to it. A string of at most \<open>n\<close> characters is stored as it is; a longer one whose excess
  is all spaces is stored cut to \<open>n\<close> characters; any other is an error (\<open>None\<close>).
\<close>

definition VARCHAR :: "nat \<Rightarrow> string \<Rightarrow> string option" where
  "VARCHAR n x =
     (if length x \<le> n then Some x
      else if list_all (\<lambda>c. c = CHR '' '') (drop n x) then Some (take n x)
      else None)"

definition VARCHAR_null :: "nat \<Rightarrow> string option \<Rightarrow> string option option" where
  "VARCHAR_null n v = (case v of None \<Rightarrow> Some None | Some x \<Rightarrow> map_option Some (VARCHAR n x))"

definition robots_columns :: "robots \<Rightarrow> robots option" where
  "robots_columns r =
     (case VARCHAR_null 50 (robots_name r) of
        None \<Rightarrow> None
      | Some n \<Rightarrow>
          (case VARCHAR_null 50 (robots_type r) of
             None \<Rightarrow> None
           | Some t \<Rightarrow> Some (r\<lparr>robots_name := n, robots_type := t\<rparr>)))"

definition parts_columns :: "parts \<Rightarrow> parts option" where
  "parts_columns p =
     (case VARCHAR_null 50 (parts_name p) of
        None \<Rightarrow> None
      | Some n \<Rightarrow> Some (p\<lparr>parts_name := n\<rparr>))"

definition maintenance_logs_columns :: "maintenance_logs \<Rightarrow> maintenance_logs option" where
  "maintenance_logs_columns l =
     (case VARCHAR 200 (logs_description l) of
        None \<Rightarrow> None
      | Some x \<Rightarrow>
          (case VARCHAR 50 (logs_done_by l) of
             None \<Rightarrow> None
           | Some y \<Rightarrow> Some (l\<lparr>logs_description := x, logs_done_by := y\<rparr>)))"

text \<open>The constraints the classes declare.\<close>

definition parts_key :: "parts \<Rightarrow> int \<times> int option" where
  "parts_key p = (parts_robot_id p, parts_id p)"

definition pk_robots :: "robots list \<Rightarrow> bool" where
  "pk_robots rs = (list_all (\<lambda>r. robots_id r \<noteq> None) rs \<and> distinct (map robots_id rs))"

definition unique_robots_name :: "robots list \<Rightarrow> bool" where
  "unique_robots_name rs = distinct (filter (\<lambda>n. n \<noteq> None) (map robots_name rs))"

definition pk_parts :: "parts list \<Rightarrow> bool" where
  "pk_parts ps = (list_all (\<lambda>p. parts_id p \<noteq> None) ps \<and> distinct (map parts_key ps))"

definition fk_parts_robots :: "robots list \<Rightarrow> parts list \<Rightarrow> bool" where
  "fk_parts_robots rs ps = list_all (\<lambda>p. Some (parts_robot_id p) \<in> set (map robots_id rs)) ps"

definition pk_maintenance_logs :: "maintenance_logs list \<Rightarrow> bool" where
  "pk_maintenance_logs ls = (list_all (\<lambda>l. logs_id l \<noteq> None) ls \<and> distinct (map logs_id ls))"

definition fk_logs_robots :: "robots list \<Rightarrow> maintenance_logs list \<Rightarrow> bool" where
  "fk_logs_robots rs ls = list_all (\<lambda>l. Some (logs_robot_id l) \<in> set (map robots_id rs)) ls"

definition fk_logs_parts :: "parts list \<Rightarrow> maintenance_logs list \<Rightarrow> bool" where
  "fk_logs_parts ps ls =
     list_all (\<lambda>l. logs_parts_id l = None \<or>
                    (logs_robot_id l, logs_parts_id l) \<in> set (map parts_key ps)) ls"

definition row_checks :: "ddl \<Rightarrow> store \<Rightarrow> bool" where
  "row_checks d s =
     (list_all (robots_check d) (robots_table s) \<and>
      list_all (parts_check d) (parts_table s) \<and>
      list_all (maintenance_logs_check d) (maintenance_logs_table s))"

definition db_ok :: "ddl \<Rightarrow> store \<Rightarrow> bool" where
  "db_ok d s =
     (pk_robots (robots_table s) \<and> unique_robots_name (robots_table s) \<and>
      pk_parts (parts_table s) \<and> fk_parts_robots (robots_table s) (parts_table s) \<and>
      pk_maintenance_logs (maintenance_logs_table s) \<and>
      fk_logs_robots (robots_table s) (maintenance_logs_table s) \<and>
      fk_logs_parts (parts_table s) (maintenance_logs_table s) \<and>
      row_checks d s)"

subsection \<open>Statements and the session\<close>

text \<open>
  The statements the object-relational mapper sends for \<^verbatim>\<open>session.add\<close>, for a changed
  attribute of a loaded object, and for \<^verbatim>\<open>session.delete\<close>. An update and a delete
  address the row by the primary key of the object. An insert of a robot or a log without
  id takes the next value of the sequence.
\<close>

datatype stmt =
    Insert_robots robots | Update_robots robots | Delete_robots robots
  | Insert_parts parts | Update_parts parts | Delete_parts parts
  | Insert_maintenance_logs maintenance_logs | Delete_maintenance_logs maintenance_logs

fun execute :: "ddl \<Rightarrow> stmt \<Rightarrow> store \<Rightarrow> store" where
  "execute d (Insert_robots r) s =
     (case robots_id r of
        None \<Rightarrow> s\<lparr>robots_table := robots_table s @ [r\<lparr>robots_id := Some (robots_id_seq s + 1)\<rparr>],
                  robots_id_seq := robots_id_seq s + 1\<rparr>
      | Some i \<Rightarrow> s\<lparr>robots_table := robots_table s @ [r]\<rparr>)"
| "execute d (Update_robots r) s =
     s\<lparr>robots_table := map (\<lambda>x. if robots_id x = robots_id r then r else x) (robots_table s)\<rparr>"
| "execute d (Delete_robots r) s =
     s\<lparr>robots_table := filter (\<lambda>x. robots_id x \<noteq> robots_id r) (robots_table s)\<rparr>"
| "execute d (Insert_parts p) s =
     (case parts_id p of
        None \<Rightarrow> s\<lparr>parts_table :=
                    parts_table s @ [p\<lparr>parts_id := parts_id_default d s (parts_robot_id p)\<rparr>]\<rparr>
      | Some i \<Rightarrow> s\<lparr>parts_table := parts_table s @ [p]\<rparr>)"
| "execute d (Update_parts p) s =
     s\<lparr>parts_table := map (\<lambda>x. if parts_key x = parts_key p then p else x) (parts_table s)\<rparr>"
| "execute d (Delete_parts p) s =
     s\<lparr>parts_table := filter (\<lambda>x. parts_key x \<noteq> parts_key p) (parts_table s)\<rparr>"
| "execute d (Insert_maintenance_logs l) s =
     (case logs_id l of
        None \<Rightarrow> s\<lparr>maintenance_logs_table :=
                    maintenance_logs_table s @ [l\<lparr>logs_id := Some (maintenance_logs_id_seq s + 1)\<rparr>],
                  maintenance_logs_id_seq := maintenance_logs_id_seq s + 1\<rparr>
      | Some i \<Rightarrow> s\<lparr>maintenance_logs_table := maintenance_logs_table s @ [l]\<rparr>)"
| "execute d (Delete_maintenance_logs l) s =
     s\<lparr>maintenance_logs_table := filter (\<lambda>x. logs_id x \<noteq> logs_id l) (maintenance_logs_table s)\<rparr>"

text \<open>
  What the database does with one statement. The strings of an inserted or updated row
  are first converted to their columns, which cuts them or fails; a delete carries no
  strings. \<open>effect\<close> is the transaction's state after the statement (unchanged when the
  conversion fails); the statement is \<open>accepted\<close> when the conversion succeeds and the
  constraints hold afterwards. The constraints are written on the whole store: on a store
  that satisfied them before the statement, that is what the database's check of the
  changed rows decides.
\<close>

fun columns :: "stmt \<Rightarrow> stmt option" where
  "columns (Insert_robots r) = map_option Insert_robots (robots_columns r)"
| "columns (Update_robots r) = map_option Update_robots (robots_columns r)"
| "columns (Delete_robots r) = Some (Delete_robots r)"
| "columns (Insert_parts p) = map_option Insert_parts (parts_columns p)"
| "columns (Update_parts p) = map_option Update_parts (parts_columns p)"
| "columns (Delete_parts p) = Some (Delete_parts p)"
| "columns (Insert_maintenance_logs l) =
     map_option Insert_maintenance_logs (maintenance_logs_columns l)"
| "columns (Delete_maintenance_logs l) = Some (Delete_maintenance_logs l)"

definition effect :: "ddl \<Rightarrow> stmt \<Rightarrow> store \<Rightarrow> store" where
  "effect d q s = (case columns q of None \<Rightarrow> s | Some q' \<Rightarrow> execute d q' s)"

definition accepted :: "ddl \<Rightarrow> stmt \<Rightarrow> store \<Rightarrow> bool" where
  "accepted d q s = (case columns q of None \<Rightarrow> False | Some q' \<Rightarrow> db_ok d (execute d q' s))"

text \<open>
  The order in which the mapper sends the statements of one flush. It does not keep the
  order of the calls: the deletes are grouped by class, each group sorted by primary key,
  and the groups follow each other as the mapper orders the classes (maintenance_logs,
  parts, robots; the classes declare no relationship that would say otherwise). Inserts
  and updates come first; no flush of \<^verbatim>\<open>main.py\<close> holds more than one of them, or one
  of them together with a delete.
\<close>

fun is_delete :: "stmt \<Rightarrow> bool" where
  "is_delete (Delete_robots r) = True"
| "is_delete (Delete_parts p) = True"
| "is_delete (Delete_maintenance_logs l) = True"
| "is_delete q = False"

fun deleted_maintenance_logs :: "stmt list \<Rightarrow> maintenance_logs list" where
  "deleted_maintenance_logs [] = []"
| "deleted_maintenance_logs (Delete_maintenance_logs l # qs) = l # deleted_maintenance_logs qs"
| "deleted_maintenance_logs (q # qs) = deleted_maintenance_logs qs"

fun deleted_parts :: "stmt list \<Rightarrow> parts list" where
  "deleted_parts [] = []"
| "deleted_parts (Delete_parts p # qs) = p # deleted_parts qs"
| "deleted_parts (q # qs) = deleted_parts qs"

fun deleted_robots :: "stmt list \<Rightarrow> robots list" where
  "deleted_robots [] = []"
| "deleted_robots (Delete_robots r # qs) = r # deleted_robots qs"
| "deleted_robots (q # qs) = deleted_robots qs"

definition unit_of_work :: "stmt list \<Rightarrow> stmt list" where
  "unit_of_work qs =
     filter (\<lambda>q. \<not> is_delete q) qs @
     map Delete_maintenance_logs (sort_key logs_id (deleted_maintenance_logs qs)) @
     map Delete_parts (sort_key parts_key (deleted_parts qs)) @
     map Delete_robots (sort_key robots_id (deleted_robots qs))"

text \<open>
  What a handler can raise: \<^verbatim>\<open>HTTPException(status_code, detail)\<close>, the database error
  of a rejected statement, and the mapper's error when \<^verbatim>\<open>refresh\<close> finds no row.
\<close>

datatype exc = HTTPException int "string option" | DBAPIError | InvalidRequestError

text \<open>
  A session: \<open>snapshot\<close> is the database as of the last commit, \<open>tx\<close> the database as the
  open transaction sees it, \<open>pending\<close> the statements not yet flushed, in the order the
  handler asked for them, and \<open>executed\<close> the statements sent so far, in the order they
  were sent.
\<close>

record session =
  snapshot :: store
  tx :: store
  pending :: "stmt list"
  executed :: "stmt list"

definition Session :: "store \<Rightarrow> session" where
  "Session s = \<lparr>snapshot = s, tx = s, pending = [], executed = []\<rparr>"

text \<open>A rollback restores the rows; values taken from a sequence are not given back.\<close>

definition rollback_to :: "store \<Rightarrow> store \<Rightarrow> store" where
  "rollback_to snap cur =
     cur\<lparr>robots_table := robots_table snap, parts_table := parts_table snap,
         maintenance_logs_table := maintenance_logs_table snap\<rparr>"

text \<open>
  \<open>run_stmts\<close> sends a list of statements one after the other, as given, and stops at
  the first one the database does not accept. A flush hands it the pending statements in
  the mapper's order.
\<close>

fun run_stmts :: "ddl \<Rightarrow> stmt list \<Rightarrow> session \<Rightarrow> exc option \<times> session" where
  "run_stmts d [] se = (None, se)"
| "run_stmts d (q # qs) se =
     (let se' = se\<lparr>tx := effect d q (tx se), executed := executed se @ [q]\<rparr>
      in if accepted d q (tx se) then run_stmts d qs se' else (Some DBAPIError, se'))"

definition session_flush :: "ddl \<Rightarrow> session \<Rightarrow> exc option \<times> session" where
  "session_flush d se = run_stmts d (unit_of_work (pending se)) (se\<lparr>pending := []\<rparr>)"

definition session_commit :: "ddl \<Rightarrow> session \<Rightarrow> exc option \<times> session" where
  "session_commit d se =
     (case session_flush d se of
        (Some e, se') \<Rightarrow> (Some e, se')
      | (None, se') \<Rightarrow> (None, se'\<lparr>snapshot := tx se'\<rparr>))"

definition session_rollback :: "session \<Rightarrow> session" where
  "session_rollback se = se\<lparr>tx := rollback_to (snapshot se) (tx se), pending := []\<rparr>"

definition session_close :: "session \<Rightarrow> store" where
  "session_close se = rollback_to (snapshot se) (tx se)"

definition session_add :: "stmt \<Rightarrow> session \<Rightarrow> session" where
  "session_add q se = se\<lparr>pending := pending se @ [q]\<rparr>"

definition get_robots :: "session \<Rightarrow> int \<Rightarrow> robots option" where
  "get_robots se i = find (\<lambda>r. robots_id r = Some i) (robots_table (tx se))"

definition get_parts :: "session \<Rightarrow> int \<times> int \<Rightarrow> parts option" where
  "get_parts se k =
     find (\<lambda>p. parts_robot_id p = fst k \<and> parts_id p = Some (snd k)) (parts_table (tx se))"

definition get_maintenance_logs_row :: "session \<Rightarrow> int option \<Rightarrow> maintenance_logs option" where
  "get_maintenance_logs_row se i = find (\<lambda>l. logs_id l = i) (maintenance_logs_table (tx se))"

text \<open>\<^verbatim>\<open>session.exec(select(...).where(...)).all()\<close>: the session flushes, then selects.\<close>

definition exec_maintenance_logs ::
  "ddl \<Rightarrow> session \<Rightarrow> (maintenance_logs \<Rightarrow> bool) \<Rightarrow> (exc + maintenance_logs list) \<times> session" where
  "exec_maintenance_logs d se cond =
     (case session_flush d se of
        (Some e, se') \<Rightarrow> (Inl e, se')
      | (None, se') \<Rightarrow> (Inr (filter cond (maintenance_logs_table (tx se'))), se'))"

definition exec_parts ::
  "ddl \<Rightarrow> session \<Rightarrow> (parts \<Rightarrow> bool) \<Rightarrow> (exc + parts list) \<times> session" where
  "exec_parts d se cond =
     (case session_flush d se of
        (Some e, se') \<Rightarrow> (Inl e, se')
      | (None, se') \<Rightarrow> (Inr (filter cond (parts_table (tx se'))), se'))"

text \<open>The dependency \<^verbatim>\<open>sessions\<close> (lines 98 to 100): open, run the handler, close.\<close>

definition sessions :: "(session \<Rightarrow> 'a \<times> session) \<Rightarrow> store \<Rightarrow> 'a \<times> store" where
  "sessions handler s = (case handler (Session s) of (out, se) \<Rightarrow> (out, session_close se))"

subsection \<open>Handlers (lines 110 to 277)\<close>

text \<open>
  What a handler returns. The mapping keys of the source name the constructors; a returned
  (not raised) exception object is a value like any other.
\<close>

record part_fields =
  pf_name :: "string option"
  pf_quantity :: "int option"
  pf_last_checked :: "date option"

record log_fields =
  lf_parts_id :: "int option"
  lf_id :: "int option"
  lf_description :: string
  lf_log_date :: date
  lf_done_by :: string

datatype body =
    Row robots
  | Exception_object exc
  | New_robot robots
  | Updated_version robots
  | Response int
  | Part_added part_fields
  | Updated_version_of_part parts
  | Robots_maintenance_logs "log_fields list"
  | Logs maintenance_logs

text \<open>Lines 115 to 120. The 404 of the absent robot is returned, not raised.\<close>

definition get_specific_robot :: "ddl \<Rightarrow> int \<Rightarrow> session \<Rightarrow> (exc + body) \<times> session" where
  "get_specific_robot d i session =
     (case get_robots session i of
        None \<Rightarrow> (Inr (Exception_object (HTTPException 404 None)), session)
      | Some data \<Rightarrow> (Inr (Row data), session))"

text \<open>
  Lines 122 to 128. \<^verbatim>\<open>created_at\<close> is not in the body, so its default factory runs:
  \<open>today\<close> is \<^verbatim>\<open>date.today()\<close>. After the insert the mapper knows the key the database
  assigned (the current value of the sequence); \<^verbatim>\<open>refresh\<close> reloads the row under it.
\<close>

definition add_robot ::
  "ddl \<Rightarrow> date \<Rightarrow> create_update_robots \<Rightarrow> session \<Rightarrow> (exc + body) \<times> session" where
  "add_robot d today body session =
     (let new_robot = \<lparr>robots_id = None, robots_name = dump (cur_name body),
                       robots_type = dump (cur_type body), robots_created_at = today\<rparr>;
          session = session_add (Insert_robots new_robot) session
      in case session_commit d session of
           (Some e, session) \<Rightarrow> (Inl e, session)
         | (None, session) \<Rightarrow>
             (case get_robots session (robots_id_seq (tx session)) of
                None \<Rightarrow> (Inl InvalidRequestError, session)
              | Some new_robot \<Rightarrow> (Inr (New_robot new_robot), session)))"

text \<open>
  Lines 130 to 146. The changed object becomes an UPDATE at the commit; a failed commit
  is caught and rolled back, and the handler goes on to \<^verbatim>\<open>refresh\<close> and return.
\<close>

definition update_robot ::
  "ddl \<Rightarrow> int \<Rightarrow> create_update_robots \<Rightarrow> session \<Rightarrow> (exc + body) \<times> session" where
  "update_robot d i body session =
     (case get_robots session i of
        None \<Rightarrow> (Inl (HTTPException 404 None), session)
      | Some data \<Rightarrow>
          (let updates = exclude_unset_robots body
           in if updates = []
              then (Inl (HTTPException 400 (Some ''No fields provided for update'')), session)
              else
                (let data = fold setattr_robots updates data;
                     session = session_add (Update_robots data) session;
                     session = (case session_commit d session of
                                  (Some e, session) \<Rightarrow> session_rollback session
                                | (None, session) \<Rightarrow> session)
                 in case get_robots session i of
                      None \<Rightarrow> (Inl InvalidRequestError, session)
                    | Some data \<Rightarrow> (Inr (Updated_version data), session))))"

text \<open>Lines 148 to 161. The 404 of the absent robot is returned, not raised.\<close>

definition delete_robot :: "ddl \<Rightarrow> int \<Rightarrow> session \<Rightarrow> (exc + body) \<times> session" where
  "delete_robot d i session =
     (case get_robots session i of
        None \<Rightarrow> (Inr (Exception_object (HTTPException 404 None)), session)
      | Some data \<Rightarrow>
          (case exec_maintenance_logs d session (\<lambda>l. logs_robot_id l = i) of
             (Inl e, session) \<Rightarrow> (Inl e, session)
           | (Inr maintenance_logs_data, session) \<Rightarrow>
               (let session = fold (\<lambda>logs. session_add (Delete_maintenance_logs logs))
                                maintenance_logs_data session
                in case exec_parts d session (\<lambda>p. parts_robot_id p = i) of
                     (Inl e, session) \<Rightarrow> (Inl e, session)
                   | (Inr parts_data, session) \<Rightarrow>
                       (let session = fold (\<lambda>part. session_add (Delete_parts part))
                                        parts_data session;
                            session = session_add (Delete_robots data) session
                        in case session_commit d session of
                             (Some e, session) \<Rightarrow> (Inl e, session)
                           | (None, session) \<Rightarrow> (Inr (Response 204), session)))))"

text \<open>
  Lines 196 to 213. The body hands \<^verbatim>\<open>None\<close> over for a field the request left out.
  \<^verbatim>\<open>Field(default=1)\<close> and \<^verbatim>\<open>Field(default_factory=...)\<close> are also the defaults of the
  columns \<^verbatim>\<open>quantity\<close> and \<^verbatim>\<open>last_checked\<close>: when the mapper inserts the row it sends
  them in place of \<^verbatim>\<open>None\<close> and puts them on the object, which the handler reads after
  the flush. \<open>today\<close> is \<^verbatim>\<open>date.today()\<close>.
\<close>

definition column_defaults_parts :: "date \<Rightarrow> parts \<Rightarrow> parts" where
  "column_defaults_parts today p =
     p\<lparr>parts_quantity := (case parts_quantity p of None \<Rightarrow> Some 1 | Some q \<Rightarrow> Some q),
       parts_last_checked :=
         (case parts_last_checked p of None \<Rightarrow> Some today | Some t \<Rightarrow> Some t)\<rparr>"

definition add_part_in_a_robot ::
  "ddl \<Rightarrow> date \<Rightarrow> int \<Rightarrow> create_update_parts \<Rightarrow> session \<Rightarrow> (exc + body) \<times> session" where
  "add_part_in_a_robot d today robot_id body session =
     (case get_robots session robot_id of
        None \<Rightarrow> (Inl (HTTPException 404 (Some ''robot doesn't exist'')), session)
      | Some data \<Rightarrow>
          (let new_part = \<lparr>parts_robot_id = robot_id, parts_id = None,
                           parts_name = dump (cup_name body),
                           parts_quantity = dump (cup_quantity body),
                           parts_last_checked = dump (cup_last_checked body)\<rparr>;
               session = session_add (Insert_parts (column_defaults_parts today new_part)) session
           in case session_flush d session of
                (Some e, session) \<Rightarrow> (Inl e, session)
              | (None, session) \<Rightarrow>
                  (let new_part = column_defaults_parts today new_part;
                       data = \<lparr>pf_name = parts_name new_part,
                               pf_quantity = parts_quantity new_part,
                               pf_last_checked = parts_last_checked new_part\<rparr>
                   in case session_commit d session of
                        (Some e, session) \<Rightarrow> (Inl e, session)
                      | (None, session) \<Rightarrow> (Inr (Part_added data), session))))"

text \<open>Lines 215 to 230.\<close>

definition update_part ::
  "ddl \<Rightarrow> int \<Rightarrow> int \<Rightarrow> create_update_parts \<Rightarrow> session \<Rightarrow> (exc + body) \<times> session" where
  "update_part d robot_id i body session =
     (case get_parts session (robot_id, i) of
        None \<Rightarrow> (Inl (HTTPException 404 (Some ''part or robot doesn't exist'')), session)
      | Some data \<Rightarrow>
          (let update = exclude_unset_parts body
           in if update = []
              then (Inl (HTTPException 404 (Some ''no field provided'')), session)
              else
                (let data = fold setattr_parts update data;
                     session = session_add (Update_parts data) session;
                     session = (case session_commit d session of
                                  (Some e, session) \<Rightarrow> session_rollback session
                                | (None, session) \<Rightarrow> session)
                 in case get_parts session (robot_id, i) of
                      None \<Rightarrow> (Inl InvalidRequestError, session)
                    | Some data \<Rightarrow> (Inr (Updated_version_of_part data), session))))"

text \<open>
  Lines 254 to 269. The query parameter is a validated boolean, so exactly one of the two
  selects runs; \<^verbatim>\<open>parts_id == None\<close> is SQL's \<^verbatim>\<open>IS NULL\<close>.
\<close>

definition log_row :: "maintenance_logs \<Rightarrow> log_fields" where
  "log_row l = \<lparr>lf_parts_id = logs_parts_id l, lf_id = logs_id l,
               lf_description = logs_description l, lf_log_date = logs_log_date l,
               lf_done_by = logs_done_by l\<rparr>"

definition get_maintenance_logs_of_a_robot ::
  "ddl \<Rightarrow> int \<Rightarrow> bool \<Rightarrow> session \<Rightarrow> (exc + body) \<times> session" where
  "get_maintenance_logs_of_a_robot d robot_id parts session =
     (case (if parts
            then exec_maintenance_logs d session (\<lambda>l. logs_robot_id l = robot_id)
            else exec_maintenance_logs d session
                   (\<lambda>l. logs_robot_id l = robot_id \<and> logs_parts_id l = None)) of
        (Inl e, session) \<Rightarrow> (Inl e, session)
      | (Inr results, session) \<Rightarrow>
          (Inr (Robots_maintenance_logs (map log_row results)), session))"

text \<open>Lines 271 to 277.\<close>

definition add_maintenance_log ::
  "ddl \<Rightarrow> date \<Rightarrow> int \<Rightarrow> create_maintenance_log \<Rightarrow> session \<Rightarrow> (exc + body) \<times> session" where
  "add_maintenance_log d today robot_id body session =
     (let new_maintenance_log =
            \<lparr>logs_id = None, logs_robot_id = robot_id, logs_parts_id = dump (cml_parts_id body),
             logs_description = cml_description body, logs_log_date = today,
             logs_done_by = cml_done_by body\<rparr>;
          session = session_add (Insert_maintenance_logs new_maintenance_log) session
      in case session_commit d session of
           (Some e, session) \<Rightarrow> (Inl e, session)
         | (None, session) \<Rightarrow>
             (case get_maintenance_logs_row session (Some (maintenance_logs_id_seq (tx session))) of
                None \<Rightarrow> (Inl InvalidRequestError, session)
              | Some new_maintenance_log \<Rightarrow> (Inr (Logs new_maintenance_log), session)))"

subsection \<open>A small database for the examples\<close>

definition no_checks :: ddl where
  "no_checks = \<lparr>robots_check = (\<lambda>r. True), parts_check = (\<lambda>p. True),
                maintenance_logs_check = (\<lambda>l. True), parts_id_default = (\<lambda>s r. None)\<rparr>"

definition R2 :: robots where
  "R2 = \<lparr>robots_id = Some 1, robots_name = Some ''R2'', robots_type = Some ''utility'',
         robots_created_at = 739000\<rparr>"

definition C3PO :: robots where
  "C3PO = \<lparr>robots_id = Some 2, robots_name = Some ''C3PO'', robots_type = Some ''protocol'',
           robots_created_at = 739001\<rparr>"

definition wheel :: parts where
  "wheel = \<lparr>parts_robot_id = 1, parts_id = Some 1, parts_name = Some ''wheel'',
            parts_quantity = Some 4, parts_last_checked = Some 739002\<rparr>"

definition log1 :: maintenance_logs where
  "log1 = \<lparr>logs_id = Some 1, logs_robot_id = 1, logs_parts_id = None,
           logs_description = ''oiled'', logs_log_date = 739003, logs_done_by = ''Luke''\<rparr>"

definition log2 :: maintenance_logs where
  "log2 = \<lparr>logs_id = Some 2, logs_robot_id = 1, logs_parts_id = Some 1,
           logs_description = ''wheel changed'', logs_log_date = 739004, logs_done_by = ''Leia''\<rparr>"

definition hangar :: store where
  "hangar = \<lparr>robots_table = [R2, C3PO], parts_table = [wheel],
             maintenance_logs_table = [log1, log2], robots_id_seq = 2,
             maintenance_logs_id_seq = 2\<rparr>"

definition empty_store :: store where
  "empty_store = \<lparr>robots_table = [], parts_table = [], maintenance_logs_table = [],
                  robots_id_seq = 0, maintenance_logs_id_seq = 0\<rparr>"

definition depot :: store where
  "depot = hangar\<lparr>maintenance_logs_table := [log2, log1]\<rparr>"

definition numbered :: ddl where
  "numbered = no_checks\<lparr>parts_id_default := (\<lambda>s r. Some (int (length (parts_table s)) + 1))\<rparr>"

definition BB8 :: robots where
  "BB8 = \<lparr>robots_id = Some 3, robots_name = Some ''BB8'', robots_type = None,
          robots_created_at = 739005\<rparr>"

section \<open>Properties\<close>

subsection \<open>A fresh session\<close>

lemma session_close_Session: "session_close (Session s) = s"
  by (simp add: session_close_def Session_def rollback_to_def)

lemma unit_of_work_Nil: "unit_of_work [] = []"
  by (simp add: unit_of_work_def)

lemma unit_of_work_single: "unit_of_work [q] = [q]"
  by (cases q) (simp_all add: unit_of_work_def)

lemma exec_maintenance_logs_fresh:
  "exec_maintenance_logs d (Session s) cond =
     (Inr (filter cond (maintenance_logs_table s)), Session s)"
  by (simp add: exec_maintenance_logs_def session_flush_def Session_def unit_of_work_Nil)

lemma effect_delete:
  "effect d (Delete_robots r) s = execute d (Delete_robots r) s"
  "effect d (Delete_parts p) s = execute d (Delete_parts p) s"
  "effect d (Delete_maintenance_logs l) s = execute d (Delete_maintenance_logs l) s"
  by (simp_all add: effect_def)

lemma accepted_delete:
  "accepted d (Delete_robots r) s = db_ok d (execute d (Delete_robots r) s)"
  "accepted d (Delete_parts p) s = db_ok d (execute d (Delete_parts p) s)"
  "accepted d (Delete_maintenance_logs l) s = db_ok d (execute d (Delete_maintenance_logs l) s)"
  by (simp_all add: accepted_def)

lemma robots_columns_keys:
  assumes "robots_columns r = Some r'"
  shows "robots_id r' = robots_id r \<and> robots_created_at r' = robots_created_at r \<and>
         VARCHAR_null 50 (robots_name r) = Some (robots_name r') \<and>
         VARCHAR_null 50 (robots_type r) = Some (robots_type r')"
  using assms by (auto simp: robots_columns_def split: option.splits)

lemma parts_columns_keys:
  assumes "parts_columns p = Some p'"
  shows "parts_robot_id p' = parts_robot_id p \<and> parts_id p' = parts_id p"
  using assms by (auto simp: parts_columns_def split: option.splits)

lemma maintenance_logs_columns_keys:
  assumes "maintenance_logs_columns l = Some l'"
  shows "logs_id l' = logs_id l \<and> logs_robot_id l' = logs_robot_id l \<and>
         logs_parts_id l' = logs_parts_id l"
  using assms by (auto simp: maintenance_logs_columns_def split: option.splits)

lemma accepted_update_robots:
  assumes "accepted d (Update_robots r) s"
  obtains r' where "robots_columns r = Some r'"
    and "effect d (Update_robots r) s = execute d (Update_robots r') s"
    and "db_ok d (execute d (Update_robots r') s)"
  using assms by (cases "robots_columns r") (simp_all add: accepted_def effect_def)

lemma accepted_update_parts:
  assumes "accepted d (Update_parts p) s"
  obtains p' where "parts_columns p = Some p'"
    and "effect d (Update_parts p) s = execute d (Update_parts p') s"
    and "db_ok d (execute d (Update_parts p') s)"
  using assms by (cases "parts_columns p") (simp_all add: accepted_def effect_def)

lemma accepted_insert_robots:
  assumes "accepted d (Insert_robots r) s"
  obtains r' where "robots_columns r = Some r'"
    and "effect d (Insert_robots r) s = execute d (Insert_robots r') s"
    and "db_ok d (execute d (Insert_robots r') s)"
  using assms by (cases "robots_columns r") (simp_all add: accepted_def effect_def)

lemma get_robots_absent:
  "get_robots (Session s) i = None \<longleftrightarrow> Some i \<notin> set (map robots_id (robots_table s))"
  by (force simp: get_robots_def Session_def find_None_iff)

subsection \<open>Examples of the storage layer\<close>

text \<open>
  A column cuts an over-long string whose excess is spaces and refuses any other; a robot
  named with fifty letters and a space is created under the fifty letters; a part created
  without quantity and date gets the defaults of its columns.
\<close>

lemma varchar_examples:
  "VARCHAR 3 ''ab'' = Some ''ab'' \<and> VARCHAR 3 ''abc  '' = Some ''abc'' \<and> VARCHAR 3 ''abcd'' = None"
  by (simp add: VARCHAR_def)

lemma add_robot_trailing_space:
  "fst (sessions (add_robot no_checks 739005
      \<lparr>cur_name = Given (Some ''aaaaaaaaaaaaaaaaaaaaaaaaaaaaaaaaaaaaaaaaaaaaaaaaaa ''),
       cur_type = Unset\<rparr>) hangar) =
   Inr (New_robot \<lparr>robots_id = Some 3,
      robots_name = Some ''aaaaaaaaaaaaaaaaaaaaaaaaaaaaaaaaaaaaaaaaaaaaaaaaaa'',
      robots_type = None, robots_created_at = 739005\<rparr>)"
  by code_simp

lemma add_part_defaults:
  "fst (sessions (add_part_in_a_robot numbered 739005 2
      \<lparr>cup_name = Given (Some ''arm''), cup_quantity = Unset, cup_last_checked = Unset\<rparr>)
      hangar) =
   Inr (Part_added \<lparr>pf_name = Some ''arm'', pf_quantity = Some 1,
                     pf_last_checked = Some 739005\<rparr>)
   \<and> parts_table (snd (sessions (add_part_in_a_robot numbered 739005 2
      \<lparr>cup_name = Given (Some ''arm''), cup_quantity = Unset, cup_last_checked = Unset\<rparr>)
      hangar)) =
     [wheel, \<lparr>parts_robot_id = 2, parts_id = Some 2, parts_name = Some ''arm'',
              parts_quantity = Some 1, parts_last_checked = Some 739005\<rparr>]"
  by code_simp

subsection \<open>Listing the maintenance logs of a robot\<close>



text \<open>
  Claim C8. For every robot id and either value of the query parameter the listing
  returns a list and raises nothing, as the handler never looks the robot up; and when the
  robot is absent from a store whose logs all reference an existing robot (the declared
  foreign key), the list is empty.
\<close>

theorem list_logs_absent_robot:
  "(\<exists>data. sessions (get_maintenance_logs_of_a_robot d robot_id parts) s =
             (Inr (Robots_maintenance_logs data), s))
   \<and> (fk_logs_robots (robots_table s) (maintenance_logs_table s) \<longrightarrow>
      Some robot_id \<notin> set (map robots_id (robots_table s)) \<longrightarrow>
      sessions (get_maintenance_logs_of_a_robot d robot_id parts) s =
        (Inr (Robots_maintenance_logs []), s))"
proof (intro conjI impI)
  show "\<exists>data. sessions (get_maintenance_logs_of_a_robot d robot_id parts) s =
             (Inr (Robots_maintenance_logs data), s)"
    by (simp add: sessions_def get_maintenance_logs_of_a_robot_def exec_maintenance_logs_fresh
        session_close_Session)
next
  assume fk: "fk_logs_robots (robots_table s) (maintenance_logs_table s)"
    and absent: "Some robot_id \<notin> set (map robots_id (robots_table s))"
  have none: "filter (\<lambda>l. logs_robot_id l = robot_id) (maintenance_logs_table s) = []"
    using fk absent by (auto simp: fk_logs_robots_def list_all_iff filter_empty_conv)
  then have none': "filter (\<lambda>l. logs_robot_id l = robot_id \<and> logs_parts_id l = None)
       (maintenance_logs_table s) = []"
    by (auto simp: filter_empty_conv)
  show "sessions (get_maintenance_logs_of_a_robot d robot_id parts) s =
        (Inr (Robots_maintenance_logs []), s)"
    using none none'
    by (simp add: sessions_def get_maintenance_logs_of_a_robot_def exec_maintenance_logs_fresh
        session_close_Session)
qed

theorem list_logs_absent_robot_witness:
  "fk_logs_robots (robots_table hangar) (maintenance_logs_table hangar) \<and>
   Some 7 \<notin> set (map robots_id (robots_table hangar)) \<and>
   sessions (get_maintenance_logs_of_a_robot no_checks 7 True) hangar =
        (Inr (Robots_maintenance_logs []), hangar)"
proof -
  have fk: "fk_logs_robots (robots_table hangar) (maintenance_logs_table hangar)"
    by (simp add: fk_logs_robots_def hangar_def R2_def C3PO_def log1_def log2_def)
  have absent: "Some 7 \<notin> set (map robots_id (robots_table hangar))"
    by (simp add: hangar_def R2_def C3PO_def)
  show ?thesis using list_logs_absent_robot [of no_checks 7 True hangar] fk absent by simp
qed

subsection \<open>Requests the handlers turn down\<close>

text \<open>
  Claim C3 asks that a partial update that sets no field be turned down with the same
  kind of error for robots and for parts. On the example database, with robot 1 and its
  part 1 present, the robot handler raises status 400 and the part handler raises status
  404.
\<close>

theorem empty_update_statuses:
  "fst (sessions (update_robot no_checks 1 \<lparr>cur_name = Unset, cur_type = Unset\<rparr>) hangar) =
     Inl (HTTPException 400 (Some ''No fields provided for update''))
   \<and> fst (sessions (update_part no_checks 1 1
            \<lparr>cup_name = Unset, cup_quantity = Unset, cup_last_checked = Unset\<rparr>) hangar) =
     Inl (HTTPException 404 (Some ''no field provided''))"
  by (simp add: sessions_def update_robot_def update_part_def get_robots_def get_parts_def
      Session_def hangar_def R2_def C3PO_def wheel_def exclude_unset_robots_def
      exclude_unset_parts_def)

text \<open>
  Claim C4 asks that deleting an absent robot fail with a raised not-found error and
  leave the store unchanged. On the example database, which has no robot 3, the handler
  raises nothing: it returns the exception object as its value. The store is unchanged.
\<close>

theorem delete_absent_robot_returns:
  "sessions (delete_robot no_checks 3) hangar =
     (Inr (Exception_object (HTTPException 404 None)), hangar)"
  by (simp add: sessions_def delete_robot_def get_robots_def session_close_def rollback_to_def
      Session_def hangar_def R2_def C3PO_def)

text \<open>
  Claim C5. For every robot id absent from the store and every body, creating a part
  raises the not-found error, sends no statement to the database and leaves the store
  (so the parts table) unchanged.
\<close>

theorem add_part_absent_robot:
  assumes "Some robot_id \<notin> set (map robots_id (robots_table s))"
  shows "sessions (add_part_in_a_robot d today robot_id body) s =
           (Inl (HTTPException 404 (Some ''robot doesn't exist'')), s)
         \<and> executed (snd (add_part_in_a_robot d today robot_id body (Session s))) = []"
proof -
  from assms have "get_robots (Session s) robot_id = None"
    by (simp add: get_robots_absent)
  then show ?thesis
    by (simp add: sessions_def add_part_in_a_robot_def session_close_Session)
       (simp add: Session_def)
qed

theorem add_part_absent_robot_witness:
  "Some 1 \<notin> set (map robots_id (robots_table empty_store)) \<and>
   sessions (add_part_in_a_robot no_checks 739005 1
      \<lparr>cup_name = Given (Some ''wheel''), cup_quantity = Given (Some 4),
       cup_last_checked = Unset\<rparr>)
      empty_store = (Inl (HTTPException 404 (Some ''robot doesn't exist'')), empty_store)
   \<and> executed (snd (add_part_in_a_robot no_checks 739005 1
      \<lparr>cup_name = Given (Some ''wheel''), cup_quantity = Given (Some 4),
       cup_last_checked = Unset\<rparr>
      (Session empty_store))) = []"
proof -
  have h: "Some 1 \<notin> set (map robots_id (robots_table empty_store))"
    by (simp add: empty_store_def)
  show ?thesis using add_part_absent_robot [OF h] h by simp
qed

subsection \<open>Partial updates\<close>

text \<open>A commit of a fresh session with one pending statement.\<close>

lemma commit_one:
  "session_commit d (session_add q (Session s)) =
     (if accepted d q s
      then (None, \<lparr>snapshot = effect d q s, tx = effect d q s, pending = [], executed = [q]\<rparr>)
      else (Some DBAPIError, \<lparr>snapshot = s, tx = effect d q s, pending = [], executed = [q]\<rparr>))"
  by (simp add: session_commit_def session_flush_def session_add_def Session_def Let_def
      unit_of_work_single)

lemma fold_setattr_robots_frame:
  "robots_id (fold setattr_robots us r) = robots_id r \<and>
   robots_created_at (fold setattr_robots us r) = robots_created_at r"
proof (induction us arbitrary: r)
  case Nil
  show ?case by simp
next
  case (Cons u us)
  show ?case by (cases u) (simp_all add: Cons.IH)
qed

lemma fold_setattr_parts_frame:
  "parts_robot_id (fold setattr_parts us p) = parts_robot_id p \<and>
   parts_id (fold setattr_parts us p) = parts_id p"
proof (induction us arbitrary: p)
  case Nil
  show ?case by simp
next
  case (Cons u us)
  show ?case by (cases u) (simp_all add: Cons.IH)
qed

lemma rollback_update_robots: "rollback_to s (effect d (Update_robots r) s) = s"
  by (cases "robots_columns r") (simp_all add: effect_def rollback_to_def)

lemma rollback_update_parts: "rollback_to s (effect d (Update_parts p) s) = s"
  by (cases "parts_columns p") (simp_all add: effect_def rollback_to_def)

lemma update_robot_fresh:
  assumes "get_robots (Session s) i = Some data" and "exclude_unset_robots body \<noteq> []"
  shows "update_robot d i body (Session s) =
     (let q = Update_robots (fold setattr_robots (exclude_unset_robots body) data) in
      if accepted d q s
      then (let se = \<lparr>snapshot = effect d q s, tx = effect d q s, pending = [], executed = [q]\<rparr>
            in case get_robots se i of None \<Rightarrow> (Inl InvalidRequestError, se)
               | Some r \<Rightarrow> (Inr (Updated_version r), se))
      else (Inr (Updated_version data), \<lparr>snapshot = s, tx = s, pending = [], executed = [q]\<rparr>))"
proof -
  have g: "get_robots \<lparr>snapshot = s, tx = s, pending = [], executed = e\<rparr> i = Some data" for e
    using assms(1) by (simp add: get_robots_def Session_def)
  show ?thesis
    using assms g
    by (simp add: update_robot_def commit_one Let_def session_rollback_def rollback_update_robots
        del: execute.simps split: option.split)
qed

lemma update_part_fresh:
  assumes "get_parts (Session s) (robot_id, i) = Some data" and "exclude_unset_parts body \<noteq> []"
  shows "update_part d robot_id i body (Session s) =
     (let q = Update_parts (fold setattr_parts (exclude_unset_parts body) data) in
      if accepted d q s
      then (let se = \<lparr>snapshot = effect d q s, tx = effect d q s, pending = [], executed = [q]\<rparr>
            in case get_parts se (robot_id, i) of None \<Rightarrow> (Inl InvalidRequestError, se)
               | Some r \<Rightarrow> (Inr (Updated_version_of_part r), se))
      else (Inr (Updated_version_of_part data),
            \<lparr>snapshot = s, tx = s, pending = [], executed = [q]\<rparr>))"
proof -
  have g: "get_parts \<lparr>snapshot = s, tx = s, pending = [], executed = e\<rparr> (robot_id, i) = Some data"
    for e using assms(1) by (simp add: get_parts_def Session_def)
  show ?thesis
    using assms g
    by (simp add: update_part_def commit_one Let_def session_rollback_def rollback_update_parts
        del: execute.simps split: option.split)
qed

lemma get_robots_Some:
  assumes "get_robots se i = Some data"
  shows "data \<in> set (robots_table (tx se)) \<and> robots_id data = Some i"
  using assms by (auto simp: get_robots_def find_Some_iff)

lemma get_parts_Some:
  assumes "get_parts se (robot_id, i) = Some data"
  shows "data \<in> set (parts_table (tx se)) \<and> parts_key data = (robot_id, Some i)"
  using assms by (auto simp: get_parts_def find_Some_iff parts_key_def)

lemma map_update_key_only:
  "map k (map (\<lambda>x. if k x = k y then y else x) xs) = map k xs"
  by (induction xs) simp_all

lemma map_update_keys:
  assumes "distinct (map k xs)" and "y \<in> set xs" and "k y' = k y" and "g y' = g y"
  shows "map (\<lambda>x. (k x, g x)) (map (\<lambda>x. if k x = k y' then y' else x) xs) =
         map (\<lambda>x. (k x, g x)) xs"
proof -
  have "x = y" if "x \<in> set xs" and "k x = k y'" for x
    using that assms(1,2,3) by (metis distinct_map inj_on_def)
  then show ?thesis using assms(3,4) by (auto simp: map_eq_conv)
qed

lemma find_update_key:
  assumes "find (\<lambda>x. k x = a) (map (\<lambda>x. if k x = k y then y else x) xs) = Some r"
    and "k y = a"
  shows "r = y"
  using assms by (induction xs) (auto split: if_splits)

text \<open>
  Claim C7. For every existing robot and every body that sets at least one field, if the
  commit of the update fails, the session is rolled back, the store (so the stored row) is
  unchanged and the handler raises nothing: it returns the row as stored before.
\<close>

theorem update_robot_commit_failure:
  assumes "get_robots (Session s) i = Some data"
    and "exclude_unset_robots body \<noteq> []"
    and "fst (session_commit d (session_add
            (Update_robots (fold setattr_robots (exclude_unset_robots body) data)) (Session s))) = Some e"
  shows "sessions (update_robot d i body) s = (Inr (Updated_version data), s)
       \<and> tx (snd (update_robot d i body (Session s))) = s"
proof -
  from assms(3) have "\<not> accepted d
      (Update_robots (fold setattr_robots (exclude_unset_robots body) data)) s"
    by (simp add: commit_one split: if_splits)
  then show ?thesis
    using update_robot_fresh [OF assms(1,2), of d]
    by (simp add: sessions_def Let_def session_close_def rollback_to_def)
qed

theorem update_robot_commit_failure_witness:
  "get_robots (Session hangar) 1 = Some R2 \<and>
   exclude_unset_robots \<lparr>cur_name = Given (Some ''C3PO''), cur_type = Unset\<rparr> \<noteq> [] \<and>
   fst (session_commit no_checks (session_add
          (Update_robots (fold setattr_robots
             (exclude_unset_robots \<lparr>cur_name = Given (Some ''C3PO''), cur_type = Unset\<rparr>) R2))
          (Session hangar))) = Some DBAPIError \<and>
   sessions (update_robot no_checks 1 \<lparr>cur_name = Given (Some ''C3PO''), cur_type = Unset\<rparr>) hangar =
     (Inr (Updated_version R2), hangar)"
proof -
  let ?b = "\<lparr>cur_name = Given (Some ''C3PO''), cur_type = Unset\<rparr>"
  have h1: "get_robots (Session hangar) 1 = Some R2"
    by (simp add: get_robots_def Session_def hangar_def R2_def C3PO_def)
  have h2: "exclude_unset_robots ?b \<noteq> []"
    by (simp add: exclude_unset_robots_def)
  have h3: "fst (session_commit no_checks (session_add
          (Update_robots (fold setattr_robots (exclude_unset_robots ?b) R2))
          (Session hangar))) = Some DBAPIError"
    by code_simp
  show ?thesis using update_robot_commit_failure [OF h1 h2 h3] h1 h2 h3 by simp
qed

lemma update_robot_table_keys:
  "map (\<lambda>r. (robots_id r, robots_created_at r))
       (robots_table (snd (sessions (update_robot d i body) s))) =
   map (\<lambda>r. (robots_id r, robots_created_at r)) (robots_table s)"
proof (cases "get_robots (Session s) i")
  case None
  then show ?thesis
    by (simp add: sessions_def update_robot_def session_close_Session)
next
  case (Some data)
  show ?thesis
  proof (cases "exclude_unset_robots body = []")
    case True
    with Some show ?thesis
      by (simp add: sessions_def update_robot_def session_close_Session)
  next
    case False
    let ?data = "fold setattr_robots (exclude_unset_robots body) data"
    let ?q = "Update_robots ?data"
    show ?thesis
    proof (cases "accepted d ?q s")
      case ok: True
      then obtain r' where cols: "robots_columns ?data = Some r'"
        and eff: "effect d ?q s = execute d (Update_robots r') s"
        and ok': "db_ok d (execute d (Update_robots r') s)"
        by (rule accepted_update_robots)
      have keys: "robots_id r' = robots_id data" "robots_created_at r' = robots_created_at data"
        using robots_columns_keys [OF cols] by (simp_all add: fold_setattr_robots_frame)
      have store: "snd (sessions (update_robot d i body) s) = execute d (Update_robots r') s"
        using update_robot_fresh [OF Some False, of d] ok eff
        by (simp add: sessions_def Let_def session_close_def rollback_to_def
            del: execute.simps split: option.split)
      from ok' have "distinct (map robots_id (robots_table (execute d (Update_robots r') s)))"
        by (simp add: db_ok_def pk_robots_def del: execute.simps)
      then have dist: "distinct (map robots_id (robots_table s))"
        by (simp add: map_update_key_only [of robots_id] del: map_map)
      have mem: "data \<in> set (robots_table s)"
        using get_robots_Some [OF Some] by (simp add: Session_def)
      have "map (\<lambda>r. (robots_id r, robots_created_at r))
              (robots_table (execute d (Update_robots r') s)) =
            map (\<lambda>r. (robots_id r, robots_created_at r)) (robots_table s)"
        using map_update_keys [OF dist mem keys] by (simp del: map_map)
      with store show ?thesis by simp
    next
      case bad: False
      have "snd (sessions (update_robot d i body) s) = s"
        using update_robot_fresh [OF Some False, of d] bad
        by (simp add: sessions_def Let_def session_close_def rollback_to_def)
      then show ?thesis by simp
    qed
  qed
qed

lemma update_part_table_keys:
  "map parts_key (parts_table (snd (sessions (update_part d robot_id i body) s))) =
   map parts_key (parts_table s)"
proof (cases "get_parts (Session s) (robot_id, i)")
  case None
  then show ?thesis
    by (simp add: sessions_def update_part_def session_close_Session)
next
  case (Some data)
  show ?thesis
  proof (cases "exclude_unset_parts body = []")
    case True
    with Some show ?thesis
      by (simp add: sessions_def update_part_def session_close_Session)
  next
    case False
    let ?data = "fold setattr_parts (exclude_unset_parts body) data"
    let ?q = "Update_parts ?data"
    show ?thesis
    proof (cases "accepted d ?q s")
      case ok: True
      then obtain p' where eff: "effect d ?q s = execute d (Update_parts p') s"
        by (rule accepted_update_parts)
      have store: "snd (sessions (update_part d robot_id i body) s) = execute d (Update_parts p') s"
        using update_part_fresh [OF Some False, of d] ok eff
        by (simp add: sessions_def Let_def session_close_def rollback_to_def
            del: execute.simps split: option.split)
      have "map parts_key (parts_table (execute d (Update_parts p') s)) =
            map parts_key (parts_table s)"
        by (simp add: map_update_key_only [of parts_key] del: map_map)
      with store show ?thesis by simp
    next
      case bad: False
      have "snd (sessions (update_part d robot_id i body) s) = s"
        using update_part_fresh [OF Some False, of d] bad
        by (simp add: sessions_def Let_def session_close_def rollback_to_def)
      then show ?thesis by simp
    qed
  qed
qed

lemma update_robot_response_keys:
  assumes "get_robots (Session s) i = Some data"
    and "fst (sessions (update_robot d i body) s) = Inr (Updated_version r)"
  shows "robots_id r = robots_id data \<and> robots_created_at r = robots_created_at data"
proof (cases "exclude_unset_robots body = []")
  case True
  with assms show ?thesis by (simp add: sessions_def update_robot_def)
next
  case False
  let ?data = "fold setattr_robots (exclude_unset_robots body) data"
  let ?q = "Update_robots ?data"
  show ?thesis
  proof (cases "accepted d ?q s")
    case True
    then obtain r' where cols: "robots_columns ?data = Some r'"
      and eff: "effect d ?q s = execute d (Update_robots r') s"
      by (rule accepted_update_robots)
    have keys: "robots_id r' = robots_id data" "robots_created_at r' = robots_created_at data"
      using robots_columns_keys [OF cols] by (simp_all add: fold_setattr_robots_frame)
    from True assms(2) update_robot_fresh [OF assms(1) False, of d] eff
    have "find (\<lambda>x. robots_id x = Some i)
            (map (\<lambda>x. if robots_id x = robots_id r' then r' else x) (robots_table s)) = Some r"
      by (simp add: sessions_def Let_def get_robots_def split: option.splits prod.splits)
    moreover have "robots_id r' = Some i"
      using get_robots_Some [OF assms(1)] keys by simp
    ultimately have "r = r'" by (rule find_update_key)
    then show ?thesis using keys by simp
  next
    case False
    with assms(2) update_robot_fresh [OF assms(1) \<open>exclude_unset_robots body \<noteq> []\<close>, of d]
    show ?thesis by (simp add: sessions_def Let_def)
  qed
qed

lemma update_part_response_keys:
  assumes "get_parts (Session s) (robot_id, i) = Some data"
    and "fst (sessions (update_part d robot_id i body) s) = Inr (Updated_version_of_part p)"
  shows "parts_robot_id p = parts_robot_id data \<and> parts_id p = parts_id data"
proof (cases "exclude_unset_parts body = []")
  case True
  with assms show ?thesis by (simp add: sessions_def update_part_def)
next
  case False
  let ?data = "fold setattr_parts (exclude_unset_parts body) data"
  let ?q = "Update_parts ?data"
  show ?thesis
  proof (cases "accepted d ?q s")
    case True
    then obtain p' where cols: "parts_columns ?data = Some p'"
      and eff: "effect d ?q s = execute d (Update_parts p') s"
      by (rule accepted_update_parts)
    have keys: "parts_robot_id p' = parts_robot_id data" "parts_id p' = parts_id data"
      using parts_columns_keys [OF cols] by (simp_all add: fold_setattr_parts_frame)
    have key: "parts_key p' = (robot_id, Some i)"
      using get_parts_Some [OF assms(1)] keys by (simp add: parts_key_def)
    from True assms(2) update_part_fresh [OF assms(1) False, of d] eff
    have "find (\<lambda>x. parts_key x = (robot_id, Some i))
            (map (\<lambda>x. if parts_key x = parts_key p' then p' else x) (parts_table s)) = Some p"
      by (simp add: sessions_def Let_def get_parts_def parts_key_def
          split: option.splits prod.splits)
    then have "p = p'" using key by (rule find_update_key)
    then show ?thesis using keys by simp
  next
    case False
    with assms(2) update_part_fresh [OF assms(1) \<open>exclude_unset_parts body \<noteq> []\<close>, of d]
    show ?thesis by (simp add: sessions_def Let_def)
  qed
qed

text \<open>
  Claim C9. A partial update of a robot changes no robot's \<open>id\<close> or \<open>created_at\<close>, in the
  table and in the returned row; a partial update of a part changes no part's \<open>robot_id\<close>
  or \<open>id\<close>, in the table and in the returned row. The update shapes carry name and type
  (robots) and name, quantity and last_checked (parts) only.
\<close>

theorem partial_update_keeps_keys:
  "map (\<lambda>r. (robots_id r, robots_created_at r))
       (robots_table (snd (sessions (update_robot d i body) s))) =
   map (\<lambda>r. (robots_id r, robots_created_at r)) (robots_table s)
   \<and> (\<forall>data r. get_robots (Session s) i = Some data \<and>
          fst (sessions (update_robot d i body) s) = Inr (Updated_version r) \<longrightarrow>
          robots_id r = robots_id data \<and> robots_created_at r = robots_created_at data)
   \<and> map parts_key (parts_table (snd (sessions (update_part d robot_id j pbody) s))) =
     map parts_key (parts_table s)
   \<and> (\<forall>data p. get_parts (Session s) (robot_id, j) = Some data \<and>
          fst (sessions (update_part d robot_id j pbody) s) = Inr (Updated_version_of_part p) \<longrightarrow>
          parts_robot_id p = parts_robot_id data \<and> parts_id p = parts_id data)"
proof (intro conjI allI impI)
  show "map (\<lambda>r. (robots_id r, robots_created_at r))
       (robots_table (snd (sessions (update_robot d i body) s))) =
     map (\<lambda>r. (robots_id r, robots_created_at r)) (robots_table s)"
    by (rule update_robot_table_keys)
  show "map parts_key (parts_table (snd (sessions (update_part d robot_id j pbody) s))) =
     map parts_key (parts_table s)"
    by (rule update_part_table_keys)
next
  fix data r
  assume "get_robots (Session s) i = Some data \<and>
          fst (sessions (update_robot d i body) s) = Inr (Updated_version r)"
  then show "robots_id r = robots_id data" and "robots_created_at r = robots_created_at data"
    using update_robot_response_keys by blast+
next
  fix data p
  assume "get_parts (Session s) (robot_id, j) = Some data \<and>
          fst (sessions (update_part d robot_id j pbody) s) = Inr (Updated_version_of_part p)"
  then show "parts_robot_id p = parts_robot_id data" and "parts_id p = parts_id data"
    using update_part_response_keys by blast+
qed

theorem partial_update_keeps_keys_witness:
  "get_robots (Session hangar) 1 = Some R2 \<and>
   fst (sessions (update_robot no_checks 1 \<lparr>cur_name = Given (Some ''BB8''), cur_type = Unset\<rparr>)
          hangar) = Inr (Updated_version (R2\<lparr>robots_name := Some ''BB8''\<rparr>)) \<and>
   robots_id (R2\<lparr>robots_name := Some ''BB8''\<rparr>) = robots_id R2 \<and>
   robots_created_at (R2\<lparr>robots_name := Some ''BB8''\<rparr>) = robots_created_at R2 \<and>
   get_parts (Session hangar) (1, 1) = Some wheel \<and>
   fst (sessions (update_part no_checks 1 1
          \<lparr>cup_name = Unset, cup_quantity = Given (Some 5), cup_last_checked = Unset\<rparr>)
          hangar) = Inr (Updated_version_of_part (wheel\<lparr>parts_quantity := Some 5\<rparr>)) \<and>
   parts_robot_id (wheel\<lparr>parts_quantity := Some 5\<rparr>) = parts_robot_id wheel \<and>
   parts_id (wheel\<lparr>parts_quantity := Some 5\<rparr>) = parts_id wheel"
proof -
  let ?b = "\<lparr>cur_name = Given (Some ''BB8''), cur_type = Unset\<rparr>"
  let ?pb = "\<lparr>cup_name = Unset, cup_quantity = Given (Some 5), cup_last_checked = Unset\<rparr>"
  note keys = partial_update_keeps_keys [of no_checks 1 ?b hangar 1 1 ?pb]
  have h1: "get_robots (Session hangar) 1 = Some R2"
    by code_simp
  have h2: "fst (sessions (update_robot no_checks 1 ?b) hangar) =
              Inr (Updated_version (R2\<lparr>robots_name := Some ''BB8''\<rparr>))"
    by code_simp
  have h3: "get_parts (Session hangar) (1, 1) = Some wheel"
    by code_simp
  have h4: "fst (sessions (update_part no_checks 1 1 ?pb) hangar) =
              Inr (Updated_version_of_part (wheel\<lparr>parts_quantity := Some 5\<rparr>))"
    by code_simp
  from keys h1 h2
  have r: "robots_id (R2\<lparr>robots_name := Some ''BB8''\<rparr>) = robots_id R2 \<and>
           robots_created_at (R2\<lparr>robots_name := Some ''BB8''\<rparr>) = robots_created_at R2"
    by blast
  from keys h3 h4
  have p: "parts_robot_id (wheel\<lparr>parts_quantity := Some 5\<rparr>) = parts_robot_id wheel \<and>
           parts_id (wheel\<lparr>parts_quantity := Some 5\<rparr>) = parts_id wheel"
    by blast
  from h1 h2 h3 h4 r p show ?thesis by blast
qed

subsection \<open>Creating maintenance logs\<close>

lemma add_maintenance_log_fresh:
  "add_maintenance_log d today robot_id body (Session s) =
     (let q = Insert_maintenance_logs
                \<lparr>logs_id = None, logs_robot_id = robot_id, logs_parts_id = dump (cml_parts_id body),
                 logs_description = cml_description body, logs_log_date = today,
                 logs_done_by = cml_done_by body\<rparr>
      in if accepted d q s
         then (let se = \<lparr>snapshot = effect d q s, tx = effect d q s, pending = [], executed = [q]\<rparr>
               in case get_maintenance_logs_row se (Some (maintenance_logs_id_seq (effect d q s))) of
                    None \<Rightarrow> (Inl InvalidRequestError, se)
                  | Some l \<Rightarrow> (Inr (Logs l), se))
         else (Inl DBAPIError, \<lparr>snapshot = s, tx = effect d q s, pending = [], executed = [q]\<rparr>))"
  by (simp add: add_maintenance_log_def commit_one Let_def split: option.split)

lemma insert_log_absent_robot:
  assumes "Some (logs_robot_id l) \<notin> set (map robots_id (robots_table s))"
  shows "\<not> accepted d (Insert_maintenance_logs l) s"
proof (cases "maintenance_logs_columns l")
  case None
  then show ?thesis by (simp add: accepted_def)
next
  case (Some l')
  from assms maintenance_logs_columns_keys [OF Some]
  have "Some (logs_robot_id l') \<notin> set (map robots_id (robots_table s))"
    by simp
  then have "\<not> db_ok d (execute d (Insert_maintenance_logs l') s)"
    by (cases "logs_id l'") (auto simp: db_ok_def fk_logs_robots_def)
  with Some show ?thesis by (simp add: accepted_def)
qed

lemma insert_log_foreign_part:
  assumes "logs_parts_id l = Some p"
    and "(logs_robot_id l, Some p) \<notin> set (map parts_key (parts_table s))"
  shows "\<not> accepted d (Insert_maintenance_logs l) s"
proof (cases "maintenance_logs_columns l")
  case None
  then show ?thesis by (simp add: accepted_def)
next
  case (Some l')
  from assms maintenance_logs_columns_keys [OF Some]
  have "logs_parts_id l' = Some p"
    and "(logs_robot_id l', Some p) \<notin> set (map parts_key (parts_table s))"
    by simp_all
  then have "\<not> db_ok d (execute d (Insert_maintenance_logs l') s)"
    by (cases "logs_id l'") (auto simp: db_ok_def fk_logs_parts_def)
  with Some show ?thesis by (simp add: accepted_def)
qed

text \<open>
  Claim C10. For every robot id, existent or not, and every body, creating a maintenance
  log sends exactly one statement, the insert of the row built from the request; the
  handler never raises an HTTP error (so no not-found of its own); it raises the database
  error exactly when the database rejects the insert, which it does for a robot that does
  not exist and for a part that does not belong to the robot, by the declared foreign keys.
\<close>

theorem add_log_no_handler_check:
  "executed (snd (add_maintenance_log d today robot_id body (Session s))) =
     [Insert_maintenance_logs
        \<lparr>logs_id = None, logs_robot_id = robot_id, logs_parts_id = dump (cml_parts_id body),
         logs_description = cml_description body, logs_log_date = today,
         logs_done_by = cml_done_by body\<rparr>]
   \<and> (\<forall>c m. fst (add_maintenance_log d today robot_id body (Session s)) \<noteq> Inl (HTTPException c m))
   \<and> (fst (add_maintenance_log d today robot_id body (Session s)) = Inl DBAPIError \<longleftrightarrow>
        \<not> accepted d (Insert_maintenance_logs
             \<lparr>logs_id = None, logs_robot_id = robot_id, logs_parts_id = dump (cml_parts_id body),
              logs_description = cml_description body, logs_log_date = today,
              logs_done_by = cml_done_by body\<rparr>) s)
   \<and> (Some robot_id \<notin> set (map robots_id (robots_table s)) \<longrightarrow>
        fst (add_maintenance_log d today robot_id body (Session s)) = Inl DBAPIError)
   \<and> (\<forall>p. dump (cml_parts_id body) = Some p \<and>
            (robot_id, Some p) \<notin> set (map parts_key (parts_table s)) \<longrightarrow>
        fst (add_maintenance_log d today robot_id body (Session s)) = Inl DBAPIError)"
proof -
  let ?l = "\<lparr>logs_id = None, logs_robot_id = robot_id, logs_parts_id = dump (cml_parts_id body),
         logs_description = cml_description body, logs_log_date = today,
         logs_done_by = cml_done_by body\<rparr>"
  let ?out = "add_maintenance_log d today robot_id body (Session s)"
  note fresh = add_maintenance_log_fresh [of d today robot_id body s]
  have a: "executed (snd ?out) = [Insert_maintenance_logs ?l]"
    using fresh by (simp add: Let_def split: option.split)
  have b: "fst ?out \<noteq> Inl (HTTPException c m)" for c m
    using fresh by (simp add: Let_def split: option.split)
  have c: "fst ?out = Inl DBAPIError \<longleftrightarrow> \<not> accepted d (Insert_maintenance_logs ?l) s"
    using fresh by (simp add: Let_def split: option.split)
  have d: "fst ?out = Inl DBAPIError"
    if "Some robot_id \<notin> set (map robots_id (robots_table s))"
    using that insert_log_absent_robot [of ?l s d] c by simp
  have e: "fst ?out = Inl DBAPIError"
    if "dump (cml_parts_id body) = Some p \<and> (robot_id, Some p) \<notin> set (map parts_key (parts_table s))" for p
    using that insert_log_foreign_part [of ?l p s d] c by simp
  from a b c d e show ?thesis by blast
qed

theorem add_log_no_handler_check_witness:
  "Some 7 \<notin> set (map robots_id (robots_table hangar)) \<and>
   fst (add_maintenance_log no_checks 739005 7
          \<lparr>cml_parts_id = Unset, cml_description = ''checked'', cml_done_by = ''Han''\<rparr>
          (Session hangar)) = Inl DBAPIError \<and>
   executed (snd (add_maintenance_log no_checks 739005 7
          \<lparr>cml_parts_id = Unset, cml_description = ''checked'', cml_done_by = ''Han''\<rparr>
          (Session hangar))) =
     [Insert_maintenance_logs
        \<lparr>logs_id = None, logs_robot_id = 7, logs_parts_id = None,
         logs_description = ''checked'', logs_log_date = 739005, logs_done_by = ''Han''\<rparr>]"
proof -
  have h: "Some 7 \<notin> set (map robots_id (robots_table hangar))"
    by (simp add: hangar_def R2_def C3PO_def)
  show ?thesis
    using add_log_no_handler_check [of no_checks 739005 7
        "\<lparr>cml_parts_id = Unset, cml_description = ''checked'', cml_done_by = ''Han''\<rparr>" hangar] h
    by (simp add: dump_def)
qed

subsection \<open>Creating and fetching a robot\<close>

lemma add_robot_fresh:
  "add_robot d today body (Session s) =
     (let q = Insert_robots \<lparr>robots_id = None, robots_name = dump (cur_name body),
                             robots_type = dump (cur_type body), robots_created_at = today\<rparr>
      in if accepted d q s
         then (let se = \<lparr>snapshot = effect d q s, tx = effect d q s, pending = [], executed = [q]\<rparr>
               in case get_robots se (robots_id_seq (effect d q s)) of
                    None \<Rightarrow> (Inl InvalidRequestError, se)
                  | Some r \<Rightarrow> (Inr (New_robot r), se))
         else (Inl DBAPIError, \<lparr>snapshot = s, tx = effect d q s, pending = [], executed = [q]\<rparr>))"
  by (simp add: add_robot_def commit_one Let_def split: option.split)

lemma find_distinct_key:
  assumes "find (\<lambda>x. k x = a) xs = Some r" and "distinct (map k xs)" and "y \<in> set xs" and "k y = a"
  shows "r = y"
proof -
  from assms(1) have "r \<in> set xs" and "k r = a"
    by (auto simp: find_Some_iff)
  with assms(2,3,4) show ?thesis
    by (metis distinct_map inj_on_def)
qed

text \<open>
  Claim C6. Whenever creating a robot succeeds, the response carries a row with a
  server-assigned id, and fetching that id from the resulting store returns the very same
  row (same id, name, type and created_at). The row holds the name and the type of the
  request as their columns store them, and the creation date.
\<close>

theorem create_then_fetch:
  assumes "sessions (add_robot d today body) s = (Inr b, s')"
  shows "\<exists>r i. b = New_robot r \<and> robots_id r = Some i \<and>
           sessions (get_specific_robot d i) s' = (Inr (Row r), s') \<and>
           VARCHAR_null 50 (dump (cur_name body)) = Some (robots_name r) \<and>
           VARCHAR_null 50 (dump (cur_type body)) = Some (robots_type r) \<and>
           robots_created_at r = today"
proof -
  let ?new = "\<lparr>robots_id = None, robots_name = dump (cur_name body),
               robots_type = dump (cur_type body), robots_created_at = today\<rparr>"
  let ?q = "Insert_robots ?new"
  note fresh = add_robot_fresh [of d today body s]
  from assms have out: "add_robot d today body (Session s) = (Inr b, snd (add_robot d today body (Session s)))"
    and close: "session_close (snd (add_robot d today body (Session s))) = s'"
    by (auto simp: sessions_def split: prod.splits)
  have acc: "accepted d ?q s"
    using out fresh by (auto simp: Let_def split: if_splits)
  then obtain new' where cols: "robots_columns ?new = Some new'"
    and eff: "effect d ?q s = execute d (Insert_robots new') s"
    and ok: "db_ok d (execute d (Insert_robots new') s)"
    by (rule accepted_insert_robots)
  let ?s1 = "execute d (Insert_robots new') s"
  let ?se = "\<lparr>snapshot = ?s1, tx = ?s1, pending = [], executed = [?q]\<rparr>"
  from out fresh acc eff obtain r where
    got: "get_robots ?se (robots_id_seq ?s1) = Some r" and b: "b = New_robot r"
    and se: "snd (add_robot d today body (Session s)) = ?se"
    by (auto simp: Let_def simp del: execute.simps split: option.splits)
  from close se have s': "s' = ?s1"
    by (simp add: session_close_def rollback_to_def del: execute.simps)
  have id: "robots_id r = Some (robots_id_seq ?s1)"
    using get_robots_Some [OF got] by simp
  have "get_robots (Session ?s1) (robots_id_seq ?s1) = Some r"
    using got by (simp add: get_robots_def Session_def del: execute.simps)
  then have fetch: "sessions (get_specific_robot d (robots_id_seq ?s1)) ?s1 = (Inr (Row r), ?s1)"
    by (simp add: sessions_def get_specific_robot_def session_close_Session del: execute.simps)
  note keys = robots_columns_keys [OF cols]
  from keys have noid: "robots_id new' = None" by simp
  let ?row = "new'\<lparr>robots_id := Some (robots_id_seq s + 1)\<rparr>"
  have tbl: "robots_table ?s1 = robots_table s @ [?row]"
    and seq: "robots_id_seq ?s1 = robots_id_seq s + 1"
    using noid by simp_all
  from ok have dist: "distinct (map robots_id (robots_table ?s1))"
    by (simp add: db_ok_def pk_robots_def del: execute.simps)
  have fnd: "find (\<lambda>x. robots_id x = Some (robots_id_seq s + 1)) (robots_table ?s1) = Some r"
    using got seq by (simp add: get_robots_def del: execute.simps)
  have mem: "?row \<in> set (robots_table ?s1)"
    using tbl by simp
  have "r = ?row"
    by (rule find_distinct_key [OF fnd dist mem]) simp
  with keys have fields: "VARCHAR_null 50 (dump (cur_name body)) = Some (robots_name r) \<and>
           VARCHAR_null 50 (dump (cur_type body)) = Some (robots_type r) \<and>
           robots_created_at r = today"
    by simp
  from b id fetch fields s' show ?thesis by blast
qed

theorem create_then_fetch_witness:
  "sessions (add_robot no_checks 739005 \<lparr>cur_name = Given (Some ''BB8''), cur_type = Unset\<rparr>)
     hangar = (Inr (New_robot BB8), hangar\<lparr>robots_table := [R2, C3PO, BB8], robots_id_seq := 3\<rparr>)
   \<and> sessions (get_specific_robot no_checks 3)
         (hangar\<lparr>robots_table := [R2, C3PO, BB8], robots_id_seq := 3\<rparr>) =
       (Inr (Row BB8), hangar\<lparr>robots_table := [R2, C3PO, BB8], robots_id_seq := 3\<rparr>)"
proof -
  let ?b = "\<lparr>cur_name = Given (Some ''BB8''), cur_type = Unset\<rparr>"
  let ?s' = "hangar\<lparr>robots_table := [R2, C3PO, BB8], robots_id_seq := 3\<rparr>"
  have h: "sessions (add_robot no_checks 739005 ?b) hangar = (Inr (New_robot BB8), ?s')"
    by code_simp
  have i: "robots_id BB8 = Some 3"
    by (simp add: BB8_def)
  from create_then_fetch [OF h] i
  have "sessions (get_specific_robot no_checks 3) ?s' = (Inr (Row BB8), ?s')"
    by auto
  with h show ?thesis by simp
qed

subsection \<open>Deleting a robot\<close>

text \<open>
  A flush succeeds when every pending statement keeps an invariant that implies the
  constraints; the lemmas below give the invariant for each of the three kinds of delete.
\<close>

lemma fold_session_add:
  "fold (\<lambda>x. session_add (f x)) xs se = se\<lparr>pending := pending se @ map f xs\<rparr>"
  by (induction xs arbitrary: se) (simp_all add: session_add_def)

lemma run_stmts_append:
  "run_stmts d (qs @ rs) se =
     (case run_stmts d qs se of (None, se') \<Rightarrow> run_stmts d rs se' | (Some e, se') \<Rightarrow> (Some e, se'))"
  by (induction qs arbitrary: se) (simp_all add: Let_def)

lemma delete_effect:
  assumes "is_delete q"
  shows "effect d q s = execute d q s" and "accepted d q s = db_ok d (execute d q s)"
  using assms by (cases q; simp add: effect_def accepted_def)+

lemma run_deletes_invariant:
  assumes "I (tx se)"
    and "\<And>q. q \<in> set qs \<Longrightarrow> is_delete q"
    and "\<And>q s. q \<in> set qs \<Longrightarrow> I s \<Longrightarrow> I (execute d q s) \<and> db_ok d (execute d q s)"
  shows "run_stmts d qs se =
           (None, se\<lparr>tx := fold (execute d) qs (tx se), executed := executed se @ qs\<rparr>)
         \<and> I (fold (execute d) qs (tx se))"
  using assms
proof (induction qs arbitrary: se)
  case Nil
  then show ?case by simp
next
  case (Cons q qs)
  let ?se = "se\<lparr>tx := execute d q (tx se), executed := executed se @ [q]\<rparr>"
  from Cons.prems have del: "is_delete q" by simp
  from Cons.prems have step: "I (execute d q (tx se))" "db_ok d (execute d q (tx se))"
    by simp_all
  have "run_stmts d qs ?se =
           (None, ?se\<lparr>tx := fold (execute d) qs (tx ?se), executed := executed ?se @ qs\<rparr>)
         \<and> I (fold (execute d) qs (tx ?se))"
    using step(1) Cons.prems(2,3) by (intro Cons.IH) simp_all
  with step(2) show ?case
    by (simp add: Let_def delete_effect [OF del] del: execute.simps)
qed

lemma unit_of_work_delete_logs:
  "unit_of_work (map Delete_maintenance_logs ls) =
     map Delete_maintenance_logs (sort_key logs_id ls)"
proof -
  have "filter (\<lambda>q. \<not> is_delete q) (map Delete_maintenance_logs ls) = []"
    and "deleted_maintenance_logs (map Delete_maintenance_logs ls) = ls"
    and "deleted_parts (map Delete_maintenance_logs ls) = []"
    and "deleted_robots (map Delete_maintenance_logs ls) = []"
    by (induction ls) simp_all
  then show ?thesis by (simp add: unit_of_work_def)
qed

lemma unit_of_work_delete_parts_robot:
  "unit_of_work (map Delete_parts ps @ [Delete_robots r]) =
     map Delete_parts (sort_key parts_key ps) @ [Delete_robots r]"
proof -
  have "filter (\<lambda>q. \<not> is_delete q) (map Delete_parts ps @ [Delete_robots r]) = []"
    and "deleted_maintenance_logs (map Delete_parts ps @ [Delete_robots r]) = []"
    and "deleted_parts (map Delete_parts ps @ [Delete_robots r]) = ps"
    and "deleted_robots (map Delete_parts ps @ [Delete_robots r]) = [r]"
    by (induction ps) simp_all
  then show ?thesis by (simp add: unit_of_work_def)
qed

lemma fold_delete_logs:
  "fold (execute d) (map Delete_maintenance_logs ls) s =
     s\<lparr>maintenance_logs_table :=
         filter (\<lambda>x. logs_id x \<notin> set (map logs_id ls)) (maintenance_logs_table s)\<rparr>"
proof (induction ls arbitrary: s)
  case Nil
  show ?case by simp
next
  case (Cons l ls)
  have "filter (\<lambda>x. logs_id x \<noteq> logs_id l \<and> logs_id x \<notin> logs_id ` set ls) (maintenance_logs_table s)
      = filter (\<lambda>x. logs_id x \<notin> set (map logs_id (l # ls))) (maintenance_logs_table s)"
    by (rule filter_cong) auto
  then show ?case by (simp add: Cons.IH)
qed

lemma fold_delete_parts:
  "fold (execute d) (map Delete_parts ps) s =
     s\<lparr>parts_table := filter (\<lambda>x. parts_key x \<notin> set (map parts_key ps)) (parts_table s)\<rparr>"
proof (induction ps arbitrary: s)
  case Nil
  show ?case by simp
next
  case (Cons p ps)
  have "filter (\<lambda>x. parts_key x \<noteq> parts_key p \<and> parts_key x \<notin> parts_key ` set ps) (parts_table s)
      = filter (\<lambda>x. parts_key x \<notin> set (map parts_key (p # ps))) (parts_table s)"
    by (rule filter_cong) auto
  then show ?case by (simp add: Cons.IH)
qed

lemma filter_key_notin:
  assumes "distinct (map k xs)"
  shows "filter (\<lambda>x. k x \<notin> set (map k (filter P xs))) xs = filter (\<lambda>x. \<not> P x) xs"
proof (rule filter_cong [OF refl])
  fix x assume x: "x \<in> set xs"
  have "P x" if "y \<in> set xs" "P y" "k x = k y" for y
    using that x assms by (metis distinct_map inj_on_def)
  then show "(k x \<notin> set (map k (filter P xs))) = (\<not> P x)"
    using x by auto
qed

lemma db_ok_delete_log:
  assumes "db_ok d s"
  shows "db_ok d (execute d (Delete_maintenance_logs l) s)"
  using assms
  by (auto simp: db_ok_def pk_maintenance_logs_def fk_logs_robots_def fk_logs_parts_def
      row_checks_def list_all_iff distinct_map_filter)

lemma fk_logs_parts_delete_part:
  assumes "fk_logs_parts ps ls" and "\<forall>l\<in>set ls. logs_robot_id l \<noteq> parts_robot_id p"
  shows "fk_logs_parts (filter (\<lambda>x. parts_key x \<noteq> parts_key p) ps) ls"
  unfolding fk_logs_parts_def list_all_iff
proof
  fix l assume l: "l \<in> set ls"
  show "logs_parts_id l = None \<or>
        (logs_robot_id l, logs_parts_id l) \<in>
          set (map parts_key (filter (\<lambda>x. parts_key x \<noteq> parts_key p) ps))"
  proof (cases "logs_parts_id l = None")
    case True
    then show ?thesis by simp
  next
    case False
    with assms(1) l obtain x where x: "x \<in> set ps" "parts_key x = (logs_robot_id l, logs_parts_id l)"
      by (auto simp: fk_logs_parts_def list_all_iff)
    from assms(2) l have "logs_robot_id l \<noteq> parts_robot_id p" by blast
    with x(2) have "parts_key x \<noteq> parts_key p"
      by (auto simp: parts_key_def)
    with x have "(logs_robot_id l, logs_parts_id l) \<in>
          set (map parts_key (filter (\<lambda>x. parts_key x \<noteq> parts_key p) ps))"
      by force
    then show ?thesis by simp
  qed
qed

lemma db_ok_delete_part:
  assumes "db_ok d s" and "\<forall>l\<in>set (maintenance_logs_table s). logs_robot_id l \<noteq> parts_robot_id p"
  shows "db_ok d (execute d (Delete_parts p) s)"
proof -
  have 1: "pk_parts (filter (\<lambda>x. parts_key x \<noteq> parts_key p) (parts_table s))"
    using assms(1) by (simp add: db_ok_def pk_parts_def list_all_iff distinct_map_filter)
  have 2: "fk_parts_robots (robots_table s) (filter (\<lambda>x. parts_key x \<noteq> parts_key p) (parts_table s))"
    using assms(1) by (simp add: db_ok_def fk_parts_robots_def list_all_iff)
  have 3: "fk_logs_parts (filter (\<lambda>x. parts_key x \<noteq> parts_key p) (parts_table s))
             (maintenance_logs_table s)"
    using assms by (intro fk_logs_parts_delete_part) (simp_all add: db_ok_def)
  have 4: "row_checks d (execute d (Delete_parts p) s)"
    using assms(1) by (simp add: db_ok_def row_checks_def list_all_iff)
  from assms(1) 1 2 3 4 show ?thesis
    by (simp add: db_ok_def)
qed

lemma distinct_filter_map_filter:
  "distinct (filter P (map f xs)) \<Longrightarrow> distinct (filter P (map f (filter Q xs)))"
  by (induction xs) auto

lemma fk_delete_robot:
  assumes "list_all (\<lambda>x. Some (k x) \<in> set (map robots_id rs)) xs"
    and "\<forall>x\<in>set xs. k x \<noteq> i"
  shows "list_all (\<lambda>x. Some (k x) \<in> set (map robots_id (filter (\<lambda>r. robots_id r \<noteq> Some i) rs))) xs"
  unfolding list_all_iff
proof
  fix x assume x: "x \<in> set xs"
  with assms(1) obtain r where r: "r \<in> set rs" "robots_id r = Some (k x)"
    by (auto simp: list_all_iff)
  from assms(2) x have "k x \<noteq> i" by blast
  with r have "r \<in> set (filter (\<lambda>r. robots_id r \<noteq> Some i) rs)" by simp
  with r(2) show "Some (k x) \<in> set (map robots_id (filter (\<lambda>r. robots_id r \<noteq> Some i) rs))"
    by force
qed

lemma db_ok_delete_robot:
  assumes "db_ok d s" and "robots_id r = Some i"
    and "\<forall>p\<in>set (parts_table s). parts_robot_id p \<noteq> i"
    and "\<forall>l\<in>set (maintenance_logs_table s). logs_robot_id l \<noteq> i"
  shows "db_ok d (execute d (Delete_robots r) s)"
proof -
  let ?rs = "filter (\<lambda>x. robots_id x \<noteq> Some i) (robots_table s)"
  have 1: "pk_robots ?rs"
    using assms(1) by (simp add: db_ok_def pk_robots_def list_all_iff distinct_map_filter)
  have 2: "unique_robots_name ?rs"
    using assms(1) by (simp add: db_ok_def unique_robots_name_def distinct_filter_map_filter)
  have 3: "fk_parts_robots ?rs (parts_table s)"
    unfolding fk_parts_robots_def using assms(1,3)
    by (intro fk_delete_robot) (simp_all add: db_ok_def fk_parts_robots_def)
  have 4: "fk_logs_robots ?rs (maintenance_logs_table s)"
    unfolding fk_logs_robots_def using assms(1,4)
    by (intro fk_delete_robot) (simp_all add: db_ok_def fk_logs_robots_def)
  have 5: "row_checks d (execute d (Delete_robots r) s)"
    using assms(1) by (simp add: db_ok_def row_checks_def list_all_iff)
  from assms(1,2) 1 2 3 4 5 show ?thesis
    by (simp add: db_ok_def)
qed

lemma delete_logs_of_robot:
  assumes "db_ok d s"
  shows "fold (execute d)
           (map Delete_maintenance_logs
              (sort_key logs_id (filter (\<lambda>l. logs_robot_id l = i) (maintenance_logs_table s)))) s =
         s\<lparr>maintenance_logs_table := filter (\<lambda>l. logs_robot_id l \<noteq> i) (maintenance_logs_table s)\<rparr>"
proof -
  let ?ls = "filter (\<lambda>l. logs_robot_id l = i) (maintenance_logs_table s)"
  from assms have dist: "distinct (map logs_id (maintenance_logs_table s))"
    by (simp add: db_ok_def pk_maintenance_logs_def)
  have "set (map logs_id (sort_key logs_id ?ls)) = set (map logs_id ?ls)"
    by simp
  then show ?thesis
    by (simp only: fold_delete_logs filter_key_notin [OF dist])
qed

lemma delete_parts_of_robot:
  assumes "distinct (map parts_key (parts_table s))"
  shows "fold (execute d)
           (map Delete_parts
              (sort_key parts_key (filter (\<lambda>p. parts_robot_id p = i) (parts_table s)))) s =
         s\<lparr>parts_table := filter (\<lambda>p. parts_robot_id p \<noteq> i) (parts_table s)\<rparr>"
proof -
  let ?ps = "filter (\<lambda>p. parts_robot_id p = i) (parts_table s)"
  have "set (map parts_key (sort_key parts_key ?ps)) = set (map parts_key ?ps)"
    by simp
  then show ?thesis
    by (simp only: fold_delete_parts filter_key_notin [OF assms])
qed

lemma flush_delete_logs:
  assumes "db_ok d s"
  shows "session_flush d \<lparr>snapshot = s, tx = s,
             pending = map Delete_maintenance_logs
                         (filter (\<lambda>l. logs_robot_id l = i) (maintenance_logs_table s)),
             executed = []\<rparr> =
         (None, \<lparr>snapshot = s,
                 tx = s\<lparr>maintenance_logs_table :=
                         filter (\<lambda>l. logs_robot_id l \<noteq> i) (maintenance_logs_table s)\<rparr>,
                 pending = [],
                 executed = map Delete_maintenance_logs
                   (sort_key logs_id
                      (filter (\<lambda>l. logs_robot_id l = i) (maintenance_logs_table s)))\<rparr>)
         \<and> db_ok d (s\<lparr>maintenance_logs_table :=
                         filter (\<lambda>l. logs_robot_id l \<noteq> i) (maintenance_logs_table s)\<rparr>)"
proof -
  let ?qs = "map Delete_maintenance_logs
               (sort_key logs_id (filter (\<lambda>l. logs_robot_id l = i) (maintenance_logs_table s)))"
  let ?se = "\<lparr>snapshot = s, tx = s, pending = [], executed = []\<rparr>"
  have "run_stmts d ?qs ?se =
           (None, ?se\<lparr>tx := fold (execute d) ?qs (tx ?se), executed := executed ?se @ ?qs\<rparr>)
         \<and> db_ok d (fold (execute d) ?qs (tx ?se))"
  proof (rule run_deletes_invariant)
    show "db_ok d (tx ?se)" using assms by simp
  next
    fix q assume "q \<in> set ?qs"
    then show "is_delete q" by auto
  next
    fix q s' assume "q \<in> set ?qs" and "db_ok d s'"
    then show "db_ok d (execute d q s') \<and> db_ok d (execute d q s')"
      by (auto simp del: execute.simps intro: db_ok_delete_log)
  qed
  then show ?thesis
    by (simp add: session_flush_def unit_of_work_delete_logs delete_logs_of_robot [OF assms])
qed

lemma commit_delete_parts_robot:
  assumes ok: "db_ok d s2"
    and nologs: "\<forall>l\<in>set (maintenance_logs_table s2). logs_robot_id l \<noteq> i"
    and key: "robots_id data = Some i"
  shows "session_commit d \<lparr>snapshot = s0, tx = s2,
             pending = map Delete_parts (filter (\<lambda>p. parts_robot_id p = i) (parts_table s2)) @
                       [Delete_robots data],
             executed = E\<rparr> =
         (None, \<lparr>snapshot = s2\<lparr>robots_table := filter (\<lambda>x. robots_id x \<noteq> Some i) (robots_table s2),
                               parts_table := filter (\<lambda>p. parts_robot_id p \<noteq> i) (parts_table s2)\<rparr>,
                 tx = s2\<lparr>robots_table := filter (\<lambda>x. robots_id x \<noteq> Some i) (robots_table s2),
                         parts_table := filter (\<lambda>p. parts_robot_id p \<noteq> i) (parts_table s2)\<rparr>,
                 pending = [],
                 executed = E @
                   map Delete_parts
                     (sort_key parts_key (filter (\<lambda>p. parts_robot_id p = i) (parts_table s2))) @
                   [Delete_robots data]\<rparr>)
         \<and> db_ok d (s2\<lparr>robots_table := filter (\<lambda>x. robots_id x \<noteq> Some i) (robots_table s2),
                        parts_table := filter (\<lambda>p. parts_robot_id p \<noteq> i) (parts_table s2)\<rparr>)"
proof -
  let ?ps = "sort_key parts_key (filter (\<lambda>p. parts_robot_id p = i) (parts_table s2))"
  let ?qs = "map Delete_parts ?ps"
  let ?se = "\<lparr>snapshot = s0, tx = s2, pending = [], executed = E\<rparr>"
  let ?I = "\<lambda>s. db_ok d s \<and> (\<forall>l\<in>set (maintenance_logs_table s). logs_robot_id l \<noteq> i)"
  let ?s3 = "s2\<lparr>parts_table := filter (\<lambda>p. parts_robot_id p \<noteq> i) (parts_table s2)\<rparr>"
  have parts: "run_stmts d ?qs ?se =
           (None, ?se\<lparr>tx := fold (execute d) ?qs (tx ?se), executed := executed ?se @ ?qs\<rparr>)
         \<and> ?I (fold (execute d) ?qs (tx ?se))"
  proof (rule run_deletes_invariant)
    show "?I (tx ?se)" using ok nologs by simp
  next
    fix q assume "q \<in> set ?qs"
    then show "is_delete q" by auto
  next
    fix q s' assume q: "q \<in> set ?qs" and I: "?I s'"
    from q obtain p where p: "q = Delete_parts p" "parts_robot_id p = i" by auto
    from I p(2) have "db_ok d (execute d (Delete_parts p) s')"
      by (intro db_ok_delete_part) simp_all
    moreover have "maintenance_logs_table (execute d (Delete_parts p) s') = maintenance_logs_table s'"
      by simp
    ultimately show "?I (execute d q s') \<and> db_ok d (execute d q s')"
      using I p(1) by (simp del: execute.simps)
  qed
  from ok have "distinct (map parts_key (parts_table s2))"
    by (simp add: db_ok_def pk_parts_def)
  then have s3: "fold (execute d) ?qs s2 = ?s3"
    by (rule delete_parts_of_robot)
  from parts s3 have ok3: "db_ok d ?s3" and nologs3: "\<forall>l\<in>set (maintenance_logs_table ?s3). logs_robot_id l \<noteq> i"
    by simp_all
  have noparts3: "\<forall>p\<in>set (parts_table ?s3). parts_robot_id p \<noteq> i"
    by simp
  have ok4: "db_ok d (execute d (Delete_robots data) ?s3)"
    using ok3 key noparts3 nologs3 by (rule db_ok_delete_robot)
  have s4: "execute d (Delete_robots data) ?s3 =
        s2\<lparr>robots_table := filter (\<lambda>x. robots_id x \<noteq> Some i) (robots_table s2),
           parts_table := filter (\<lambda>p. parts_robot_id p \<noteq> i) (parts_table s2)\<rparr>"
    using key by simp
  have last: "run_stmts d [Delete_robots data] se' =
        (if db_ok d (execute d (Delete_robots data) (tx se'))
         then (None, se'\<lparr>tx := execute d (Delete_robots data) (tx se'),
                         executed := executed se' @ [Delete_robots data]\<rparr>)
         else (Some DBAPIError, se'\<lparr>tx := execute d (Delete_robots data) (tx se'),
                         executed := executed se' @ [Delete_robots data]\<rparr>))" for se'
    by (simp add: Let_def effect_delete accepted_delete del: execute.simps)
  from parts s3 ok4 s4 show ?thesis
    by (simp add: session_commit_def session_flush_def unit_of_work_delete_parts_robot
        run_stmts_append last del: execute.simps run_stmts.simps)
qed

lemma delete_robot_fresh:
  assumes ok: "db_ok d s" and got: "get_robots (Session s) i = Some data"
  shows "delete_robot d i (Session s) =
     (Inr (Response 204),
      \<lparr>snapshot = s\<lparr>robots_table := filter (\<lambda>r. robots_id r \<noteq> Some i) (robots_table s),
                     parts_table := filter (\<lambda>p. parts_robot_id p \<noteq> i) (parts_table s),
                     maintenance_logs_table :=
                       filter (\<lambda>l. logs_robot_id l \<noteq> i) (maintenance_logs_table s)\<rparr>,
       tx = s\<lparr>robots_table := filter (\<lambda>r. robots_id r \<noteq> Some i) (robots_table s),
               parts_table := filter (\<lambda>p. parts_robot_id p \<noteq> i) (parts_table s),
               maintenance_logs_table :=
                 filter (\<lambda>l. logs_robot_id l \<noteq> i) (maintenance_logs_table s)\<rparr>,
       pending = [],
       executed =
         map Delete_maintenance_logs
           (sort_key logs_id (filter (\<lambda>l. logs_robot_id l = i) (maintenance_logs_table s))) @
         map Delete_parts
           (sort_key parts_key (filter (\<lambda>p. parts_robot_id p = i) (parts_table s))) @
         [Delete_robots data]\<rparr>)"
proof -
  let ?ls = "filter (\<lambda>l. logs_robot_id l = i) (maintenance_logs_table s)"
  let ?s2 = "s\<lparr>maintenance_logs_table := filter (\<lambda>l. logs_robot_id l \<noteq> i) (maintenance_logs_table s)\<rparr>"
  let ?ps = "filter (\<lambda>p. parts_robot_id p = i) (parts_table s)"
  let ?E = "map Delete_maintenance_logs (sort_key logs_id ?ls)"
  have key: "robots_id data = Some i"
    using get_robots_Some [OF got] by simp
  have step1: "fold (\<lambda>logs. session_add (Delete_maintenance_logs logs)) ?ls (Session s) =
          \<lparr>snapshot = s, tx = s, pending = map Delete_maintenance_logs ?ls, executed = []\<rparr>"
    by (simp add: fold_session_add Session_def)
  note flush = flush_delete_logs [OF ok, of i]
  have step2: "exec_parts d \<lparr>snapshot = s, tx = s, pending = map Delete_maintenance_logs ?ls,
                   executed = []\<rparr> (\<lambda>p. parts_robot_id p = i) =
          (Inr ?ps, \<lparr>snapshot = s, tx = ?s2, pending = [], executed = ?E\<rparr>)"
    using flush by (simp add: exec_parts_def)
  have step3: "session_add (Delete_robots data)
          (fold (\<lambda>part. session_add (Delete_parts part)) ?ps
             \<lparr>snapshot = s, tx = ?s2, pending = [], executed = ?E\<rparr>) =
          \<lparr>snapshot = s, tx = ?s2, pending = map Delete_parts ?ps @ [Delete_robots data],
            executed = ?E\<rparr>"
    by (simp add: fold_session_add session_add_def)
  have ok2: "db_ok d ?s2" using flush by simp
  have nologs: "\<forall>l\<in>set (maintenance_logs_table ?s2). logs_robot_id l \<noteq> i" by simp
  have ps2: "filter (\<lambda>p. parts_robot_id p = i) (parts_table ?s2) = ?ps" by simp
  note commit = commit_delete_parts_robot [OF ok2 nologs key, of s ?E, unfolded ps2]
  show ?thesis
    using got commit
    by (simp add: delete_robot_def exec_maintenance_logs_fresh step1 step2 step3)
qed

text \<open>
  Claim C1. For every robot id present in a store that satisfies the declared
  constraints, deleting the robot returns the no-content response. The statements sent
  are the deletes of all maintenance logs of the robot, then the deletes of all its parts,
  then the delete of the robot row, in that order (within the logs and within the parts,
  in the order of their primary keys). The resulting store is the old one without the
  robot, its parts and its logs, so no part and no log references the robot any more, and
  the constraints still hold.
\<close>

theorem delete_robot_cascade:
  assumes "db_ok d s" and "Some i \<in> set (map robots_id (robots_table s))"
  shows "\<exists>data. get_robots (Session s) i = Some data \<and>
     sessions (delete_robot d i) s =
       (Inr (Response 204),
        s\<lparr>robots_table := filter (\<lambda>r. robots_id r \<noteq> Some i) (robots_table s),
          parts_table := filter (\<lambda>p. parts_robot_id p \<noteq> i) (parts_table s),
          maintenance_logs_table :=
            filter (\<lambda>l. logs_robot_id l \<noteq> i) (maintenance_logs_table s)\<rparr>) \<and>
     executed (snd (delete_robot d i (Session s))) =
       map Delete_maintenance_logs
         (sort_key logs_id (filter (\<lambda>l. logs_robot_id l = i) (maintenance_logs_table s))) @
       map Delete_parts
         (sort_key parts_key (filter (\<lambda>p. parts_robot_id p = i) (parts_table s))) @
       [Delete_robots data] \<and>
     (\<forall>p\<in>set (parts_table (snd (sessions (delete_robot d i) s))). parts_robot_id p \<noteq> i) \<and>
     (\<forall>l\<in>set (maintenance_logs_table (snd (sessions (delete_robot d i) s))). logs_robot_id l \<noteq> i) \<and>
     Some i \<notin> set (map robots_id (robots_table (snd (sessions (delete_robot d i) s)))) \<and>
     db_ok d (snd (sessions (delete_robot d i) s))"
proof -
  from assms(2) obtain data where got: "get_robots (Session s) i = Some data"
    using get_robots_absent [of s i] by (cases "get_robots (Session s) i") auto
  let ?s' = "s\<lparr>robots_table := filter (\<lambda>r. robots_id r \<noteq> Some i) (robots_table s),
          parts_table := filter (\<lambda>p. parts_robot_id p \<noteq> i) (parts_table s),
          maintenance_logs_table :=
            filter (\<lambda>l. logs_robot_id l \<noteq> i) (maintenance_logs_table s)\<rparr>"
  note fresh = delete_robot_fresh [OF assms(1) got]
  have res: "sessions (delete_robot d i) s = (Inr (Response 204), ?s')"
    by (simp add: sessions_def fresh session_close_def rollback_to_def)
  have ex: "executed (snd (delete_robot d i (Session s))) =
       map Delete_maintenance_logs
         (sort_key logs_id (filter (\<lambda>l. logs_robot_id l = i) (maintenance_logs_table s))) @
       map Delete_parts
         (sort_key parts_key (filter (\<lambda>p. parts_robot_id p = i) (parts_table s))) @
       [Delete_robots data]"
    by (simp add: fresh)
  have ok2: "db_ok d (s\<lparr>maintenance_logs_table :=
                         filter (\<lambda>l. logs_robot_id l \<noteq> i) (maintenance_logs_table s)\<rparr>)"
    using flush_delete_logs [OF assms(1), of i] by simp
  have key: "robots_id data = Some i"
    using get_robots_Some [OF got] by simp
  let ?s2 = "s\<lparr>maintenance_logs_table :=
                 filter (\<lambda>l. logs_robot_id l \<noteq> i) (maintenance_logs_table s)\<rparr>"
  let ?t = "?s2\<lparr>robots_table := filter (\<lambda>x. robots_id x \<noteq> Some i) (robots_table ?s2),
               parts_table := filter (\<lambda>p. parts_robot_id p \<noteq> i) (parts_table ?s2)\<rparr>"
  have nologs: "\<forall>l\<in>set (maintenance_logs_table ?s2). logs_robot_id l \<noteq> i"
    by simp
  have "db_ok d ?t"
    by (rule commit_delete_parts_robot [OF ok2 nologs key, THEN conjunct2])
  moreover have "?t = ?s'"
    by (rule store.equality) simp_all
  ultimately have ok': "db_ok d ?s'"
    by (simp only:)
  have o1: "\<forall>p\<in>set (parts_table ?s'). parts_robot_id p \<noteq> i"
    by simp
  have o2: "\<forall>l\<in>set (maintenance_logs_table ?s'). logs_robot_id l \<noteq> i"
    by simp
  have o3: "Some i \<notin> set (map robots_id (robots_table ?s'))"
    by auto
  from res have store: "snd (sessions (delete_robot d i) s) = ?s'"
    by (simp only: snd_conv)
  show ?thesis
  proof (intro exI [of _ data] conjI)
    show "get_robots (Session s) i = Some data" by (rule got)
    show "sessions (delete_robot d i) s = (Inr (Response 204), ?s')" by (rule res)
    show "executed (snd (delete_robot d i (Session s))) =
       map Delete_maintenance_logs
         (sort_key logs_id (filter (\<lambda>l. logs_robot_id l = i) (maintenance_logs_table s))) @
       map Delete_parts
         (sort_key parts_key (filter (\<lambda>p. parts_robot_id p = i) (parts_table s))) @
       [Delete_robots data]" by (rule ex)
    show "\<forall>p\<in>set (parts_table (snd (sessions (delete_robot d i) s))). parts_robot_id p \<noteq> i"
      unfolding store by (fact o1)
    show "\<forall>l\<in>set (maintenance_logs_table (snd (sessions (delete_robot d i) s))).
            logs_robot_id l \<noteq> i"
      unfolding store by (fact o2)
    show "Some i \<notin> set (map robots_id (robots_table (snd (sessions (delete_robot d i) s))))"
      unfolding store by (fact o3)
    show "db_ok d (snd (sessions (delete_robot d i) s))"
      unfolding store by (fact ok')
  qed
qed

theorem delete_robot_cascade_witness:
  "db_ok no_checks depot \<and> Some 1 \<in> set (map robots_id (robots_table depot)) \<and>
   sessions (delete_robot no_checks 1) depot =
     (Inr (Response 204),
      depot\<lparr>robots_table := [C3PO], parts_table := [], maintenance_logs_table := []\<rparr>) \<and>
   executed (snd (delete_robot no_checks 1 (Session depot))) =
     [Delete_maintenance_logs log1, Delete_maintenance_logs log2, Delete_parts wheel,
      Delete_robots R2]"
proof -
  have h1: "db_ok no_checks depot"
    by code_simp
  have h2: "Some 1 \<in> set (map robots_id (robots_table depot))"
    by (simp add: depot_def hangar_def R2_def)
  have g: "get_robots (Session depot) 1 = Some R2"
    by (simp add: get_robots_def Session_def depot_def hangar_def R2_def)
  have rs: "filter (\<lambda>r. robots_id r \<noteq> Some 1) (robots_table depot) = [C3PO]"
    by (simp add: depot_def hangar_def R2_def C3PO_def)
  have ps: "filter (\<lambda>p. parts_robot_id p \<noteq> 1) (parts_table depot) = []"
    "sort_key parts_key (filter (\<lambda>p. parts_robot_id p = 1) (parts_table depot)) = [wheel]"
    by (simp_all add: depot_def hangar_def wheel_def)
  have ls: "filter (\<lambda>l. logs_robot_id l \<noteq> 1) (maintenance_logs_table depot) = []"
    "sort_key logs_id (filter (\<lambda>l. logs_robot_id l = 1) (maintenance_logs_table depot)) =
       [log1, log2]"
    by (simp_all add: depot_def hangar_def log1_def log2_def)
  from delete_robot_cascade [OF h1 h2] obtain data where c:
    "get_robots (Session depot) 1 = Some data \<and>
     sessions (delete_robot no_checks 1) depot =
       (Inr (Response 204),
        depot\<lparr>robots_table := filter (\<lambda>r. robots_id r \<noteq> Some 1) (robots_table depot),
          parts_table := filter (\<lambda>p. parts_robot_id p \<noteq> 1) (parts_table depot),
          maintenance_logs_table :=
            filter (\<lambda>l. logs_robot_id l \<noteq> 1) (maintenance_logs_table depot)\<rparr>) \<and>
     executed (snd (delete_robot no_checks 1 (Session depot))) =
       map Delete_maintenance_logs
         (sort_key logs_id (filter (\<lambda>l. logs_robot_id l = 1) (maintenance_logs_table depot))) @
       map Delete_parts
         (sort_key parts_key (filter (\<lambda>p. parts_robot_id p = 1) (parts_table depot))) @
       [Delete_robots data] \<and>
     (\<forall>p\<in>set (parts_table (snd (sessions (delete_robot no_checks 1) depot))).
         parts_robot_id p \<noteq> 1) \<and>
     (\<forall>l\<in>set (maintenance_logs_table (snd (sessions (delete_robot no_checks 1) depot))).
         logs_robot_id l \<noteq> 1) \<and>
     Some 1 \<notin> set (map robots_id (robots_table (snd (sessions (delete_robot no_checks 1) depot)))) \<and>
     db_ok no_checks (snd (sessions (delete_robot no_checks 1) depot))" ..
  have d: "get_robots (Session depot) 1 = Some data"
    by (rule c [THEN conjunct1])
  have r: "sessions (delete_robot no_checks 1) depot =
       (Inr (Response 204),
        depot\<lparr>robots_table := [C3PO], parts_table := [], maintenance_logs_table := []\<rparr>)"
    using c [THEN conjunct2, THEN conjunct1] by (simp only: rs ps ls)
  from d g have "data = R2" by simp
  then have e: "executed (snd (delete_robot no_checks 1 (Session depot))) =
     [Delete_maintenance_logs log1, Delete_maintenance_logs log2, Delete_parts wheel,
      Delete_robots R2]"
    using c [THEN conjunct2, THEN conjunct2, THEN conjunct1] by (simp only: rs ps ls) simp
  show ?thesis
    by (intro conjI) (rule h1 h2 r e)+
qed

end
